theory Spec2Isabelle
  imports Main
begin

section \<open>JavaScript values and JSON text\<close>

text \<open>
  JSON documents. Numbers are restricted to integers (the only numbers the engine
  serialises are the bytes of a Buffer). An object is the list of its members in
  serialisation order.
\<close>

datatype json =
    JNull
  | JBool bool
  | JNum int
  | JStr string
  | JArr "json list"
  | JObj "(string \<times> json) list"

fun join :: "string \<Rightarrow> string list \<Rightarrow> string" where
  "join sep [] = []"
| "join sep [x] = x"
| "join sep (x # y # ys) = x @ sep @ join sep (y # ys)"

fun digits :: "nat \<Rightarrow> string" where
  "digits n = (if n < 10 then [''0123456789'' ! n]
               else digits (n div 10) @ [''0123456789'' ! (n mod 10)])"

text \<open>
  \<^verbatim>\<open>JSON.stringify\<close> of a string: the text between double quotes, with the double
  quote and the backslash escaped. (Control characters, which JavaScript writes as
  further escapes, are copied.)
\<close>

definition quote :: "string \<Rightarrow> string" where
  "quote s = CHR 0x22 #
     concat (map (\<lambda>c. if c = CHR 0x22 then [CHR 0x5C, CHR 0x22]
                      else if c = CHR 0x5C then [CHR 0x5C, CHR 0x5C] else [c]) s)
     @ [CHR 0x22]"

primrec JSON_stringify :: "json \<Rightarrow> string" where
  "JSON_stringify JNull = ''null''"
| "JSON_stringify (JBool b) = (if b then ''true'' else ''false'')"
| "JSON_stringify (JNum n) = (if n < 0 then ''-'' @ digits (nat (- n)) else digits (nat n))"
| "JSON_stringify (JStr s) = quote s"
| "JSON_stringify (JArr xs) = ''['' @ join '','' (map JSON_stringify xs) @ '']''"
| "JSON_stringify (JObj kvs) =
     ''{'' @ join '','' (map (\<lambda>kv. quote (fst kv) @ '':'' @ snd kv)
                          (map (map_prod id JSON_stringify) kvs)) @ ''}''"

text \<open>
  An object literal whose member expressions may be \<^verbatim>\<open>undefined\<close>:
  \<^verbatim>\<open>JSON.stringify\<close> leaves such members out.
\<close>

fun object_of :: "(string \<times> json option) list \<Rightarrow> (string \<times> json) list" where
  "object_of [] = []"
| "object_of ((k, None) # kvs) = object_of kvs"
| "object_of ((k, Some v) # kvs) = (k, v) # object_of kvs"

definition str :: "string option \<Rightarrow> json option" where
  "str s = map_option JStr s"

text \<open>
  Property access \<^verbatim>\<open>v.k\<close> on a parsed value that is not \<^verbatim>\<open>null\<close>: the member of an
  object, \<^verbatim>\<open>undefined\<close> (\<open>None\<close>) when there is none and on arrays and primitives.
  Access on \<^verbatim>\<open>null\<close> raises a TypeError; each caller handles that case itself.
\<close>

fun member :: "json \<Rightarrow> string \<Rightarrow> json option" where
  "member (JObj kvs) k = map_of kvs k"
| "member _ k = None"

fun truthy_json :: "json \<Rightarrow> bool" where
  "truthy_json JNull = False"
| "truthy_json (JBool b) = b"
| "truthy_json (JNum n) = (n \<noteq> 0)"
| "truthy_json (JStr s) = (s \<noteq> [])"
| "truthy_json (JArr xs) = True"
| "truthy_json (JObj kvs) = True"

text \<open>Truthiness of a field that is a string or \<^verbatim>\<open>undefined\<close>.\<close>

fun truthy :: "string option \<Rightarrow> bool" where
  "truthy None = False"
| "truthy (Some s) = (s \<noteq> [])"

text \<open>
  \<^verbatim>\<open>parsed.email === account.email\<close>: a member of a parsed document against a field
  that is a string or \<^verbatim>\<open>undefined\<close>.
\<close>

fun strict_eq :: "json option \<Rightarrow> string option \<Rightarrow> bool" where
  "strict_eq None None = True"
| "strict_eq (Some (JStr s)) (Some t) = (s = t)"
| "strict_eq _ _ = False"

text \<open>
  The values handed to the store's upsert: \<^verbatim>\<open>null\<close>, \<^verbatim>\<open>undefined\<close>, a Buffer, any
  other value with \<^verbatim>\<open>typeof value === 'object'\<close> (given by the document that
  \<^verbatim>\<open>JSON.stringify\<close> makes of it), or a string.
\<close>

datatype js_value =
    Null
  | Undefined
  | Buffer "nat list"
  | Object json
  | String string

datatype js_error =
    UnsupportedPlatform
  | InvalidValue string
  | StringifiedNull string
  | FsError string
  | BindError
  | EncryptionError
  | TypeError
  | SyntaxError
  | RequestError
  | Error string

section \<open>The embedded store\<close>

text \<open>
  The table \<^verbatim>\<open>ItemTable (key, value)\<close> of \<^verbatim>\<open>state.vscdb\<close> as its rows, and the four
  statements the engine issues. Values are text.
\<close>

type_synonym table = "(string \<times> string) list"

definition select_value :: "table \<Rightarrow> string \<Rightarrow> string list" where
  "select_value t k = map snd (filter (\<lambda>r. fst r = k) t)"

definition insert_or_replace :: "table \<Rightarrow> string \<Rightarrow> string \<Rightarrow> table" where
  "insert_or_replace t k v = filter (\<lambda>r. fst r \<noteq> k) t @ [(k, v)]"

definition delete_key :: "table \<Rightarrow> string \<Rightarrow> table" where
  "delete_key t k = filter (\<lambda>r. fst r \<noteq> k) t"

definition ascii_lower :: "char \<Rightarrow> char" where
  "ascii_lower c = (case map_of (zip ''ABCDEFGHIJKLMNOPQRSTUVWXYZ'' ''abcdefghijklmnopqrstuvwxyz'') c of
                      None \<Rightarrow> c | Some l \<Rightarrow> l)"

text \<open>
  SQL \<^verbatim>\<open>LIKE\<close>: \<^verbatim>\<open>%\<close> matches any run of characters, \<^verbatim>\<open>_\<close> any one character,
  and letters match without regard to ASCII case.
\<close>

fun like :: "string \<Rightarrow> string \<Rightarrow> bool" where
  "like [] s = (s = [])"
| "like (p # ps) s =
     (if p = CHR ''%'' then like ps s \<or> (case s of [] \<Rightarrow> False | c # cs \<Rightarrow> like (p # ps) cs)
      else (case s of [] \<Rightarrow> False
            | c # cs \<Rightarrow> (p = CHR ''_'' \<or> ascii_lower p = ascii_lower c) \<and> like ps cs))"

definition select_keys_like :: "table \<Rightarrow> string \<Rightarrow> string list" where
  "select_keys_like t p = filter (like p) (map fst t)"

section \<open>Accounts, the environment and the machine\<close>

datatype platform = Win32 | Darwin | OtherPlatform

text \<open>
  An account object. Every field is a string or \<^verbatim>\<open>undefined\<close> (\<open>None\<close>).
\<close>

record account =
  acc_id :: "string option"
  email :: "string option"
  name :: "string option"
  apiKey :: "string option"
  apiServerUrl :: "string option"
  refreshToken :: "string option"
  idToken :: "string option"
  accessToken :: "string option"

text \<open>The answers of the two remote endpoints (\<^verbatim>\<open>response.data\<close>).\<close>

record token_response =
  tok_id_token :: "string option"
  tok_access_token :: "string option"
  tok_refresh_token :: "string option"

record register_response =
  reg_api_key :: "string option"
  reg_name :: "string option"
  reg_api_server_url :: "string option"

text \<open>
  What the engine is given and does not implement: the platform and the directories
  Electron and Node report, the cipher of \<^verbatim>\<open>safeStorage.encryptString\<close> (which depends on
  the \<^verbatim>\<open>userData\<close> directory in force), \<^verbatim>\<open>JSON.parse\<close> (\<open>None\<close> when it raises a
  SyntaxError), the identifiers \<^verbatim>\<open>uuidv4\<close> draws, and the two remote endpoints
  (\<open>None\<close> when the request fails).
\<close>

record env =
  platform :: platform
  homeDir :: string
  appDataDir :: string
  envHOME :: string
  cipher :: "string \<Rightarrow> string \<Rightarrow> nat list"
  JSON_parse :: "string \<Rightarrow> json option"
  uuid_source :: "nat \<Rightarrow> string"
  tokenEndpoint :: "string \<Rightarrow> token_response option"
  registerEndpoint :: "string option \<Rightarrow> register_response option"

text \<open>
  What the engine does that can be seen from outside, in order: each entry into the
  account-data write sequence, each remote request, each write of a file, each timer set
  or cleared.
\<close>

datatype event =
    WriteAccountDataCalled
  | HttpPost string
  | FileWritten string
  | IntervalSet nat
  | IntervalCleared nat

text \<open>
  A running \<^verbatim>\<open>setInterval\<close> timer of the monitor with what its callback closes over:
  the account, \<^verbatim>\<open>maxRetries\<close>, the period and the local \<^verbatim>\<open>retryCount\<close>.
\<close>

record timer =
  t_account :: account
  t_maxRetries :: nat
  t_interval :: nat
  retryCount :: nat

text \<open>
  The machine: the store files by path (\<open>None\<close>: \<^verbatim>\<open>fs.readFile\<close> rejects or the bytes
  are no database with an \<^verbatim>\<open>ItemTable\<close>), whether \<^verbatim>\<open>fs.writeFile\<close> succeeds on a path,
  whether \<^verbatim>\<open>safeStorage\<close> can encrypt, the tool's \<^verbatim>\<open>accounts.json\<close>, Electron's
  \<^verbatim>\<open>userData\<close> path, the number of identifiers drawn, the timers, and the trace.
\<close>

record world =
  files :: "string \<Rightarrow> table option"
  writable :: "string \<Rightarrow> bool"
  encryptionAvailable :: bool
  accountsJson :: "account list option"
  userData :: string
  entropy :: nat
  timers :: "(nat \<times> timer) list"
  nextTimer :: nat
  trace :: "event list"

definition readFile :: "world \<Rightarrow> string \<Rightarrow> js_error + table" where
  "readFile w path = (case files w path of None \<Rightarrow> Inl (FsError path) | Some t \<Rightarrow> Inr t)"

definition writeFile :: "string \<Rightarrow> table \<Rightarrow> world \<Rightarrow> js_error + world" where
  "writeFile path t w =
     (if writable w path
      then Inr (w\<lparr>files := (files w)(path := Some t), trace := trace w @ [FileWritten path]\<rparr>)
      else Inl (FsError path))"

definition uuidv4 :: "env \<Rightarrow> world \<Rightarrow> string \<times> world" where
  "uuidv4 env w = (uuid_source env (entropy w), w\<lparr>entropy := Suc (entropy w)\<rparr>)"

text \<open>
  \<^verbatim>\<open>safeStorage.encryptString\<close>: raises when encryption is not available, and seals
  under the \<^verbatim>\<open>userData\<close> directory in force at the call.
\<close>

definition encryptString :: "env \<Rightarrow> world \<Rightarrow> string \<Rightarrow> js_error + nat list" where
  "encryptString env w text =
     (if encryptionAvailable w then Inr (cipher env (userData w) text) else Inl EncryptionError)"

definition setPath_userData :: "string \<Rightarrow> world \<Rightarrow> world" where
  "setPath_userData p w = w\<lparr>userData := p\<rparr>"

text \<open>
  A suspension of the running call (a timed delay): the other processes act on the files, on
  their permissions and on the keychain; everything the engine owns stays as it is.
\<close>

definition sleep :: "(world \<Rightarrow> world) \<Rightarrow> world \<Rightarrow> world" where
  "sleep others w = w\<lparr>files := files (others w), writable := writable (others w),
                       encryptionAvailable := encryptionAvailable (others w)\<rparr>"

text \<open>
  \<^verbatim>\<open>path.join\<close>, without its normalisation of dots and repeated separators: the
  segments joined by the platform's separator, which on Windows also replaces every
  forward slash.
\<close>

definition path_join :: "platform \<Rightarrow> string list \<Rightarrow> string" where
  "path_join pf parts =
     (if pf = Win32 then map (\<lambda>c. if c = CHR ''/'' then CHR 0x5C else c) (join [CHR 0x5C] parts)
      else join ''/'' parts)"

subsection \<open>WindsurfPathDetector\<close>

definition getDBPath :: "env \<Rightarrow> js_error + string" where
  "getDBPath env = (case platform env of
       Win32 \<Rightarrow> Inr (path_join Win32 [appDataDir env, ''Windsurf/User/globalStorage/state.vscdb''])
     | Darwin \<Rightarrow> Inr (path_join Darwin
          [homeDir env, ''Library/Application Support/Windsurf/User/globalStorage/state.vscdb''])
     | OtherPlatform \<Rightarrow> Inl UnsupportedPlatform)"

definition getUserDataPath :: "env \<Rightarrow> js_error + string" where
  "getUserDataPath env = (case platform env of
       Win32 \<Rightarrow> Inr (path_join Win32 [appDataDir env, ''Windsurf''])
     | Darwin \<Rightarrow> Inr (path_join Darwin [homeDir env, ''Library/Application Support/Windsurf''])
     | OtherPlatform \<Rightarrow> Inl UnsupportedPlatform)"

subsection \<open>ConfigPersister.getWindsurfPaths\<close>

record windsurf_paths =
  dbPath :: string
  windsurfPath :: string

definition getWindsurfPaths :: "env \<Rightarrow> windsurf_paths" where
  "getWindsurfPaths env =
     (let dir = path_join (platform env)
            [envHOME env, ''Library'', ''Application Support'', ''Windsurf'']
      in \<lparr>dbPath = path_join (platform env) [dir, ''User'', ''globalStorage'', ''state.vscdb''],
          windsurfPath = dir\<rparr>)"

section \<open>The store writers\<close>

definition buffer_json :: "nat list \<Rightarrow> json" where
  "buffer_json bs = JObj [(''type'', JStr ''Buffer''), (''data'', JArr (map (\<lambda>b. JNum (int b)) bs))]"

text \<open>
  \<^verbatim>\<open>AccountSwitcher.writeToDB\<close>. The path is computed before the \<^verbatim>\<open>try\<close>; every error
  is thrown again by the \<^verbatim>\<open>catch\<close>. \<open>Inr\<close> is the return of \<^verbatim>\<open>true\<close>.
\<close>

definition writeToDB :: "env \<Rightarrow> string \<Rightarrow> js_value \<Rightarrow> world \<Rightarrow> js_error + world" where
  "writeToDB env key v w =
     (case getDBPath env of Inl e \<Rightarrow> Inl e | Inr path \<Rightarrow>
        if v = Null \<or> v = Undefined then Inl (InvalidValue key)
        else (case readFile w path of Inl e \<Rightarrow> Inl e | Inr db \<Rightarrow>
          (case (case v of
                   Buffer bs \<Rightarrow> Inr (JSON_stringify (buffer_json bs))
                 | Object j \<Rightarrow> (if JSON_stringify j = ''null'' then Inl (StringifiedNull key)
                                else Inr (JSON_stringify j))
                 | String s \<Rightarrow> Inr s
                 | _ \<Rightarrow> Inl BindError) of
             Inl e \<Rightarrow> Inl e
           | Inr finalValue \<Rightarrow> writeFile path (insert_or_replace db key finalValue) w)))"

text \<open>
  \<^verbatim>\<open>ConfigPersister.writeToDatabase\<close>. There is no test of the value: \<^verbatim>\<open>null\<close> has
  \<^verbatim>\<open>typeof null === 'object'\<close> and is serialised; \<^verbatim>\<open>undefined\<close> is handed to \<^verbatim>\<open>db.run\<close>
  as it is, which sql.js refuses to bind. Every error is caught and answered by \<^verbatim>\<open>false\<close>.
\<close>

definition writeToDatabase :: "env \<Rightarrow> string \<Rightarrow> js_value \<Rightarrow> world \<Rightarrow> bool \<times> world" where
  "writeToDatabase env key v w =
     (case readFile w (dbPath (getWindsurfPaths env)) of Inl e \<Rightarrow> (False, w) | Inr db \<Rightarrow>
        (case (case v of
                 Buffer bs \<Rightarrow> Inr (JSON_stringify (buffer_json bs))
               | Null \<Rightarrow> Inr (JSON_stringify JNull)
               | Object j \<Rightarrow> Inr (JSON_stringify j)
               | String s \<Rightarrow> Inr s
               | Undefined \<Rightarrow> Inl BindError) of
           Inl e \<Rightarrow> (False, w)
         | Inr finalValue \<Rightarrow>
             (case writeFile (dbPath (getWindsurfPaths env)) (insert_or_replace db key finalValue) w of
                Inl e \<Rightarrow> (False, w)
              | Inr w' \<Rightarrow> (True, w'))))"

section \<open>ConfigPersister\<close>

record last_written =
  lw_email :: "string option"
  lw_name :: "string option"

record persister =
  isMonitoring :: bool
  monitorInterval :: "nat option"
  lastWrittenData :: "last_written option"
  writeCount :: nat

definition sessionsKey :: string where
  \<open>sessionsKey = ''secret://{"extensionId":"codeium.windsurf","key":"windsurf_auth.sessions"}''\<close>

definition sessions_json :: "string \<Rightarrow> string option \<Rightarrow> string option \<Rightarrow> json" where
  "sessions_json sid token nm =
     JArr [JObj (object_of
       [(''id'', Some (JStr sid)),
        (''accessToken'', str token),
        (''account'', Some (JObj (object_of [(''label'', str nm), (''id'', str nm)]))),
        (''scopes'', Some (JArr []))])]"

text \<open>
  \<^verbatim>\<open>createEncryptedSessions\<close>. The \<^verbatim>\<open>userData\<close> path is redirected before the inner
  \<^verbatim>\<open>try\<close> and set back in its \<^verbatim>\<open>finally\<close>. After the encryption the log line takes
  \<^verbatim>\<open>tokenToUse.substring(0, 20)\<close>, a TypeError when the token is \<^verbatim>\<open>undefined\<close>. The
  world returned is the one the \<^verbatim>\<open>finally\<close> block leaves.
\<close>

definition createEncryptedSessions :: "env \<Rightarrow> account \<Rightarrow> world \<Rightarrow> (js_error + nat list) \<times> world" where
  "createEncryptedSessions env account w =
     (let paths = getWindsurfPaths env;
          originalUserData = userData w;
          w1 = setPath_userData (windsurfPath paths) w;
          tokenToUse = (if truthy (idToken account) then idToken account
                        else if truthy (accessToken account) then accessToken account
                        else apiKey account);
          (sid, w2) = uuidv4 env w1;
          jsonString = JSON_stringify (sessions_json sid tokenToUse (name account));
          result = (case encryptString env w2 jsonString of
                      Inl e \<Rightarrow> Inl e
                    | Inr encrypted \<Rightarrow>
                        (case tokenToUse of None \<Rightarrow> Inl TypeError | Some t \<Rightarrow> Inr encrypted));
          w3 = setPath_userData originalUserData w2
      in (result, w3))"

definition WORKER_URL :: string where
  "WORKER_URL = ''https://windsurf.crispvibe.cn''"

text \<open>
  \<^verbatim>\<open>getFirebaseTokens\<close>: one request to the relay; the pair returned is
  \<^verbatim>\<open>idToken\<close> and \<^verbatim>\<open>accessToken\<close> (\<^verbatim>\<open>access_token || id_token\<close>).
\<close>

definition getFirebaseTokens ::
  "env \<Rightarrow> string \<Rightarrow> world \<Rightarrow> (js_error + string option \<times> string option) \<times> world" where
  "getFirebaseTokens env rt w =
     (let w1 = w\<lparr>trace := trace w @ [HttpPost WORKER_URL]\<rparr>
      in case tokenEndpoint env rt of
           None \<Rightarrow> (Inl RequestError, w1)
         | Some d \<Rightarrow>
             (Inr (tok_id_token d,
                   if truthy (tok_access_token d) then tok_access_token d else tok_id_token d), w1))"

definition string_value :: "string option \<Rightarrow> js_value" where
  "string_value s = (case s of None \<Rightarrow> Undefined | Some t \<Rightarrow> String t)"

definition default_server :: string where
  "default_server = ''https://server.self-serve.windsurf.com''"

definition authStatus_json ::
  "string option \<Rightarrow> string option \<Rightarrow> string option \<Rightarrow> string \<Rightarrow> json" where
  "authStatus_json nm key mail teamId =
     JObj (object_of [(''name'', str nm), (''apiKey'', str key), (''email'', str mail),
                      (''teamId'', Some (JStr teamId)), (''planName'', Some (JStr ''Pro''))])"

definition codeiumConfig_json :: "string \<Rightarrow> string option \<Rightarrow> json" where
  "codeiumConfig_json installationId url =
     JObj [(''codeium.installationId'', JStr installationId),
           (''apiServerUrl'', JStr (case url of None \<Rightarrow> default_server
                                   | Some u \<Rightarrow> if u = [] then default_server else u)),
           (''codeium.hasOneTimeUpdatedUnspecifiedMode'', JBool True)]"

text \<open>
  The first step of \<^verbatim>\<open>writeAccountData\<close>: an account with a refresh token and neither
  Firebase token has the tokens fetched and stored in the account object; a failed fetch
  is logged and dropped.
\<close>

definition ensure_tokens :: "env \<Rightarrow> account \<Rightarrow> world \<Rightarrow> account \<times> world" where
  "ensure_tokens env account w =
     (case refreshToken account of
        Some rt \<Rightarrow>
          if \<not> truthy (idToken account) \<and> \<not> truthy (accessToken account) \<and> rt \<noteq> []
          then (case getFirebaseTokens env rt w of
                  (Inl e, w') \<Rightarrow> (account, w')
                | (Inr (idt, act), w') \<Rightarrow> (account\<lparr>idToken := idt, accessToken := act\<rparr>, w'))
          else (account, w)
      | None \<Rightarrow> (account, w))"

text \<open>
  The four row writes that follow the sealing; each result of \<^verbatim>\<open>writeToDatabase\<close> is
  dropped, as in the source.
\<close>

definition write_rows :: "env \<Rightarrow> account \<Rightarrow> nat list \<Rightarrow> world \<Rightarrow> world" where
  "write_rows env account encryptedSessions w =
     (let (r1, w1) = writeToDatabase env sessionsKey (Buffer encryptedSessions) w;
          (teamId, w2) = uuidv4 env w1;
          (r2, w3) = writeToDatabase env ''windsurfAuthStatus''
             (Object (authStatus_json (name account) (apiKey account) (email account) teamId)) w2;
          (installationId, w4) = uuidv4 env w3;
          (r3, w5) = writeToDatabase env ''codeium.windsurf''
             (Object (codeiumConfig_json installationId (apiServerUrl account))) w4;
          (r4, w6) = writeToDatabase env ''codeium.windsurf-windsurf_auth''
             (string_value (name account)) w5
      in w6)"

text \<open>
  \<^verbatim>\<open>writeAccountData\<close>. The account object is updated in place when tokens are fetched,
  so the account is returned with the result. (The timestamp of \<^verbatim>\<open>lastWrittenData\<close> is
  left out.)
\<close>

definition writeAccountData ::
  "env \<Rightarrow> account \<Rightarrow> persister \<times> world \<Rightarrow> (bool \<times> account) \<times> persister \<times> world" where
  "writeAccountData env account0 pw =
     (let (p, w0) = pw;
          (account, w1) = ensure_tokens env account0 (w0\<lparr>trace := trace w0 @ [WriteAccountDataCalled]\<rparr>)
      in case createEncryptedSessions env account w1 of
           (Inl e, w2) \<Rightarrow> ((False, account), p, w2)
         | (Inr encryptedSessions, w2) \<Rightarrow>
             ((True, account),
              p\<lparr>writeCount := Suc (writeCount p),
                lastWrittenData := Some \<lparr>lw_email = email account, lw_name = name account\<rparr>\<rparr>,
              write_rows env account encryptedSessions w2))"

record verify_result =
  success :: bool
  authStatus :: "json option"

text \<open>
  \<^verbatim>\<open>verifyLoginStatus\<close>: a fresh read of the store; it writes nothing. A row that
  parses to \<^verbatim>\<open>null\<close> makes the log line raise, which the \<^verbatim>\<open>catch\<close> answers like any
  other error.
\<close>

definition verifyLoginStatus :: "env \<Rightarrow> persister \<Rightarrow> world \<Rightarrow> verify_result" where
  "verifyLoginStatus env p w =
     (case readFile w (dbPath (getWindsurfPaths env)) of
        Inl e \<Rightarrow> \<lparr>success = False, authStatus = None\<rparr>
      | Inr db \<Rightarrow>
          (case select_value db ''windsurfAuthStatus'' of
             [] \<Rightarrow> \<lparr>success = False, authStatus = None\<rparr>
           | text # rest \<Rightarrow>
               (case JSON_parse env text of
                  None \<Rightarrow> \<lparr>success = False, authStatus = None\<rparr>
                | Some parsed \<Rightarrow>
                    if parsed = JNull then \<lparr>success = False, authStatus = None\<rparr>
                    else (case lastWrittenData p of
                            Some lw \<Rightarrow>
                              if strict_eq (member parsed ''email'') (lw_email lw)
                              then \<lparr>success = True, authStatus = Some parsed\<rparr>
                              else \<lparr>success = False, authStatus = Some parsed\<rparr>
                          | None \<Rightarrow> \<lparr>success = True, authStatus = Some parsed\<rparr>))))"

subsection \<open>Timers\<close>

definition setInterval :: "timer \<Rightarrow> world \<Rightarrow> nat \<times> world" where
  "setInterval t w =
     (nextTimer w,
      w\<lparr>timers := timers w @ [(nextTimer w, t)], nextTimer := Suc (nextTimer w),
        trace := trace w @ [IntervalSet (nextTimer w)]\<rparr>)"

definition clearInterval :: "nat \<Rightarrow> world \<Rightarrow> world" where
  "clearInterval tid w =
     w\<lparr>timers := filter (\<lambda>x. fst x \<noteq> tid) (timers w), trace := trace w @ [IntervalCleared tid]\<rparr>"

definition update_timer :: "nat \<Rightarrow> timer \<Rightarrow> world \<Rightarrow> world" where
  "update_timer tid t w = w\<lparr>timers := map (\<lambda>x. if fst x = tid then (tid, t) else x) (timers w)\<rparr>"

subsection \<open>The monitor\<close>

definition stopMonitoring :: "persister \<times> world \<Rightarrow> persister \<times> world" where
  "stopMonitoring pw =
     (let (p, w) = pw
      in case monitorInterval p of
           Some tid \<Rightarrow> (p\<lparr>monitorInterval := None, isMonitoring := False\<rparr>, clearInterval tid w)
         | None \<Rightarrow> (p\<lparr>isMonitoring := False\<rparr>, w))"

record options =
  opt_interval :: "nat option"
  opt_maxRetries :: "nat option"

definition interval_of :: "options \<Rightarrow> nat" where
  "interval_of opts = (case opt_interval opts of None \<Rightarrow> 5000 | Some i \<Rightarrow> i)"

definition maxRetries_of :: "options \<Rightarrow> nat" where
  "maxRetries_of opts = (case opt_maxRetries opts of None \<Rightarrow> 10 | Some m \<Rightarrow> m)"

text \<open>
  \<^verbatim>\<open>startMonitoring\<close>. The function has no \<^verbatim>\<open>throw\<close> and the one call it awaits
  returns on every path, so the call always completes (\<open>Inr ()\<close>); while
  \<^verbatim>\<open>isMonitoring\<close> holds it logs a warning and returns at once.
\<close>

definition startMonitoring ::
  "env \<Rightarrow> account \<Rightarrow> options \<Rightarrow> persister \<times> world \<Rightarrow> (js_error + unit) \<times> persister \<times> world" where
  "startMonitoring env account opts pw =
     (let (p, w) = pw
      in if isMonitoring p then (Inr (), p, w)
         else (let p1 = p\<lparr>isMonitoring := True, writeCount := 0\<rparr>;
                   ((written, account'), p2, w2) = writeAccountData env account (p1, w);
                   (tid, w3) = setInterval \<lparr>t_account = account', t_maxRetries = maxRetries_of opts,
                                             t_interval = interval_of opts, retryCount = 0\<rparr> w2
               in (Inr (), p2\<lparr>monitorInterval := Some tid\<rparr>, w3)))"

text \<open>
  The test of the callback: the verification failed, or it returned a document whose
  email is not the account's.
\<close>

definition drifted :: "env \<Rightarrow> persister \<Rightarrow> world \<Rightarrow> account \<Rightarrow> bool" where
  "drifted env p w account =
     (let verifyResult = verifyLoginStatus env p w
      in \<not> success verifyResult \<or>
         (case authStatus verifyResult of
            None \<Rightarrow> False
          | Some a \<Rightarrow> truthy_json a \<and> \<not> strict_eq (member a ''email'') (email account)))"

text \<open>
  The callback of the timer \<open>tid\<close>, run once. A timer that has been cleared does not
  fire: the state is returned as it is. Neither \<^verbatim>\<open>verifyLoginStatus\<close> nor
  \<^verbatim>\<open>writeAccountData\<close> raises and the member access is guarded, so the \<^verbatim>\<open>catch\<close> of the
  callback is never entered.
\<close>

definition tick :: "env \<Rightarrow> nat \<Rightarrow> persister \<times> world \<Rightarrow> persister \<times> world" where
  "tick env tid pw =
     (let (p, w) = pw
      in case map_of (timers w) tid of
           None \<Rightarrow> (p, w)
         | Some t \<Rightarrow>
             if drifted env p w (t_account t)
             then (let ((writeSuccess, account'), p1, w1) = writeAccountData env (t_account t) (p, w)
                   in if writeSuccess
                      then (p1, update_timer tid (t\<lparr>t_account := account', retryCount := 0\<rparr>) w1)
                      else (let n = Suc (retryCount t);
                                w2 = update_timer tid (t\<lparr>t_account := account', retryCount := n\<rparr>) w1
                            in if n \<ge> t_maxRetries t then stopMonitoring (p1, w2) else (p1, w2)))
             else (p, update_timer tid (t\<lparr>retryCount := 0\<rparr>) w))"

text \<open>
  A run of the monitor against the rest of the machine: before each firing of the
  timer the other processes act (one entry of the list per period).
\<close>

fun monitor_rounds ::
  "env \<Rightarrow> nat \<Rightarrow> (world \<Rightarrow> world) list \<Rightarrow> persister \<times> world \<Rightarrow> persister \<times> world" where
  "monitor_rounds env tid [] pw = pw"
| "monitor_rounds env tid (others # rest) pw =
     monitor_rounds env tid rest (tick env tid (fst pw, sleep others (snd pw)))"

subsection \<open>Forced write\<close>

text \<open>
  The loop of \<^verbatim>\<open>forceWrite\<close>, \<^verbatim>\<open>for (let i = 1; i <= times; i++)\<close>, with
  \<open>ntimes\<close> for the parameter \<^verbatim>\<open>times\<close>. During the delay after attempt \<open>i\<close> the other
  processes do \<open>others i delay\<close>.
\<close>

function forceWrite_loop ::
  "env \<Rightarrow> (nat \<Rightarrow> nat \<Rightarrow> world \<Rightarrow> world) \<Rightarrow> account \<Rightarrow> nat \<Rightarrow> nat \<Rightarrow> nat \<Rightarrow> persister \<times> world
     \<Rightarrow> account \<times> persister \<times> world" where
  "forceWrite_loop env others account i ntimes delay pw =
     (if i \<le> ntimes
      then (let ((written, account'), p1, w1) = writeAccountData env account pw;
                w2 = (if i < ntimes then sleep (others i delay) w1 else w1)
            in forceWrite_loop env others account' (Suc i) ntimes delay (p1, w2))
      else (account, pw))"
  by pat_completeness auto
termination
  by (relation "measure (\<lambda>(env, others, account, i, ntimes, delay, pw). Suc ntimes - i)") auto

declare forceWrite_loop.simps [simp del]

text \<open>
  \<^verbatim>\<open>forceWrite\<close>: the loop, then the final verification. A successful verification
  always carries a document, so the member access of the last test cannot raise.
\<close>

definition forceWrite ::
  "env \<Rightarrow> (nat \<Rightarrow> nat \<Rightarrow> world \<Rightarrow> world) \<Rightarrow> account \<Rightarrow> nat \<Rightarrow> nat \<Rightarrow> persister \<times> world
     \<Rightarrow> bool \<times> account \<times> persister \<times> world" where
  "forceWrite env others account ntimes delay pw =
     (let (account', p, w) = forceWrite_loop env others account 1 ntimes delay pw;
          finalVerify = verifyLoginStatus env p w
      in (success finalVerify \<and>
          (case authStatus finalVerify of
             None \<Rightarrow> False
           | Some a \<Rightarrow> strict_eq (member a ''email'') (email account')),
          account', p, w))"

section \<open>AccountSwitcher\<close>

text \<open>
  \<^verbatim>\<open>encryptSessions\<close>: the target path is computed first (and may raise); the
  redirection sits inside the \<^verbatim>\<open>try\<close> and the \<^verbatim>\<open>finally\<close> sets the path back.
\<close>

definition encryptSessions :: "env \<Rightarrow> json \<Rightarrow> world \<Rightarrow> (js_error + nat list) \<times> world" where
  "encryptSessions env sessionsData w =
     (case getUserDataPath env of
        Inl e \<Rightarrow> (Inl e, w)
      | Inr windsurfUserData \<Rightarrow>
          (let originalUserData = userData w;
               w1 = setPath_userData windsurfUserData w;
               result = encryptString env w1 (JSON_stringify sessionsData);
               w2 = setPath_userData originalUserData w1
           in (result, w2)))"

subsection \<open>Credentials (step 3 of \<^verbatim>\<open>switchAccount\<close>)\<close>

definition REGISTER_URL :: string where
  "REGISTER_URL =
     ''https://register.windsurf.com/exa.seat_management_pb.SeatManagementService/RegisterUser''"

definition getAccessToken :: "env \<Rightarrow> string \<Rightarrow> world \<Rightarrow> (js_error + string option) \<times> world" where
  "getAccessToken env rt w =
     (let w1 = w\<lparr>trace := trace w @ [HttpPost (WORKER_URL @ ''/token'')]\<rparr>
      in case tokenEndpoint env rt of
           None \<Rightarrow> (Inl RequestError, w1)
         | Some d \<Rightarrow> (Inr (tok_id_token d), w1))"

definition getApiKey ::
  "env \<Rightarrow> string option \<Rightarrow> world \<Rightarrow> (js_error + register_response) \<times> world" where
  "getApiKey env token w =
     (let w1 = w\<lparr>trace := trace w @ [HttpPost REGISTER_URL]\<rparr>
      in case registerEndpoint env token of
           None \<Rightarrow> (Inl RequestError, w1)
         | Some d \<Rightarrow> (Inr d, w1))"

fun replace_first :: "('a \<Rightarrow> bool) \<Rightarrow> ('a \<Rightarrow> 'a) \<Rightarrow> 'a list \<Rightarrow> 'a list option" where
  "replace_first P f [] = None"
| "replace_first P f (x # xs) =
     (if P x then Some (f x # xs) else map_option ((#) x) (replace_first P f xs))"

text \<open>
  Saving fetched credentials to the tool's \<^verbatim>\<open>accounts.json\<close>: best effort, every
  failure is logged and dropped. (The \<^verbatim>\<open>updatedAt\<close> stamp is left out.)
\<close>

definition save_credentials ::
  "env \<Rightarrow> account \<Rightarrow> string option \<Rightarrow> string option \<Rightarrow> string option \<Rightarrow> world \<Rightarrow> world" where
  "save_credentials env account key nm url w =
     (let accountsFilePath = path_join (platform env) [userData w, ''accounts.json''];
          accounts = (case accountsJson w of None \<Rightarrow> [] | Some l \<Rightarrow> l)
      in case replace_first (\<lambda>acc. acc_id acc = acc_id account \<or> email acc = email account)
                (\<lambda>acc. acc\<lparr>apiKey := key, name := nm, apiServerUrl := url\<rparr>) accounts of
           None \<Rightarrow> w
         | Some accounts' \<Rightarrow>
             if writable w accountsFilePath
             then w\<lparr>accountsJson := Some accounts', trace := trace w @ [FileWritten accountsFilePath]\<rparr>
             else w)"

text \<open>
  The credential stage: the three values \<^verbatim>\<open>apiKey\<close>, \<^verbatim>\<open>name\<close>, \<^verbatim>\<open>apiServerUrl\<close> the
  rest of the switch uses. The log lines take \<^verbatim>\<open>apiKey.substring(0, 20)\<close>, a TypeError
  when the registration answered without a key.
\<close>

definition switchAccount_credentials ::
  "env \<Rightarrow> account \<Rightarrow> world
     \<Rightarrow> (js_error + string option \<times> string option \<times> string option) \<times> world" where
  "switchAccount_credentials env account w =
     (if truthy (apiKey account) \<and> truthy (name account) \<and> truthy (apiServerUrl account)
      then (Inr (apiKey account, name account, apiServerUrl account), w)
      else (case refreshToken account of
              None \<Rightarrow> (Inl (Error ''missing refreshToken and apiKey''), w)
            | Some rt \<Rightarrow>
                if rt = [] then (Inl (Error ''missing refreshToken and apiKey''), w)
                else (case getAccessToken env rt w of
                        (Inl e, w1) \<Rightarrow> (Inl e, w1)
                      | (Inr token, w1) \<Rightarrow>
                          (case getApiKey env token w1 of
                             (Inl e, w2) \<Rightarrow> (Inl e, w2)
                           | (Inr info, w2) \<Rightarrow>
                               (case reg_api_key info of
                                  None \<Rightarrow> (Inl TypeError, w2)
                                | Some k \<Rightarrow>
                                    (Inr (reg_api_key info, reg_name info, reg_api_server_url info),
                                     save_credentials env account (reg_api_key info) (reg_name info)
                                       (reg_api_server_url info) w2))))))"

subsection \<open>Purging stale rows (step 5.1)\<close>

definition stale_pattern :: string where
  "stale_pattern = ''windsurf_auth-%''"

text \<open>
  Every key matching the pattern is selected and deleted one by one; the file is written
  back only when there was at least one. \<open>Inr\<close> carries the number of keys deleted.
\<close>

definition purge_old_keys :: "env \<Rightarrow> world \<Rightarrow> js_error + nat \<times> world" where
  "purge_old_keys env w =
     (case getDBPath env of Inl e \<Rightarrow> Inl e | Inr path \<Rightarrow>
        (case readFile w path of Inl e \<Rightarrow> Inl e | Inr db \<Rightarrow>
           (let oldKeys = select_keys_like db stale_pattern
            in if oldKeys \<noteq> []
               then (case writeFile path (fold (\<lambda>k t. delete_key t k) oldKeys db) w of
                       Inl e \<Rightarrow> Inl e
                     | Inr w' \<Rightarrow> Inr (length oldKeys, w'))
               else Inr (0, w))))"

subsection \<open>Current account\<close>

text \<open>
  \<^verbatim>\<open>getCurrentAccount\<close>: the path is computed before the \<^verbatim>\<open>try\<close>; inside it every
  error is answered by \<^verbatim>\<open>null\<close>. Only a \<^verbatim>\<open>SELECT\<close> is issued.
\<close>

definition getCurrentAccount :: "env \<Rightarrow> world \<Rightarrow> (js_error + json) \<times> world" where
  "getCurrentAccount env w =
     (case getDBPath env of Inl e \<Rightarrow> (Inl e, w) | Inr path \<Rightarrow>
        (case readFile w path of Inl e \<Rightarrow> (Inr JNull, w) | Inr db \<Rightarrow>
           (case select_value db ''windsurfAuthStatus'' of
              [] \<Rightarrow> (Inr JNull, w)
            | v # rest \<Rightarrow>
                (case JSON_parse env v of None \<Rightarrow> (Inr JNull, w) | Some parsed \<Rightarrow> (Inr parsed, w)))))"

subsection \<open>Writing the records (steps 5.2 and 5.3)\<close>

fun truthy_member :: "json option \<Rightarrow> bool" where
  "truthy_member None = False"
| "truthy_member (Some v) = truthy_json v"

text \<open>The two read-backs that follow the first two writes.\<close>

definition readback_sessions :: "env \<Rightarrow> world \<Rightarrow> js_error option" where
  "readback_sessions env w =
     (case getDBPath env of Inl e \<Rightarrow> Some e | Inr path \<Rightarrow>
        (case readFile w path of Inl e \<Rightarrow> Some e | Inr db \<Rightarrow>
           if select_value db sessionsKey = []
           then Some (Error ''sessions row not found after write'') else None))"

definition readback_authStatus :: "env \<Rightarrow> world \<Rightarrow> js_error option" where
  "readback_authStatus env w =
     (case getDBPath env of Inl e \<Rightarrow> Some e | Inr path \<Rightarrow>
        (case readFile w path of Inl e \<Rightarrow> Some e | Inr db \<Rightarrow>
           (case select_value db ''windsurfAuthStatus'' of
              [] \<Rightarrow> Some (Error ''windsurfAuthStatus row not found after write'')
            | v # rest \<Rightarrow>
                if v = ''null'' then Some (Error ''windsurfAuthStatus is null after write'')
                else (case JSON_parse env v of
                        None \<Rightarrow> Some (Error ''windsurfAuthStatus does not parse'')
                      | Some parsed \<Rightarrow>
                          if \<not> truthy_json parsed \<or> \<not> truthy_member (member parsed ''email'')
                          then Some (Error ''windsurfAuthStatus is invalid after write'')
                          else None))))"

text \<open>
  The sessions are built from the credentials, sealed and written; the row is read
  back; the Auth Status is written and read back (it must not be the text \<^verbatim>\<open>null\<close>, must
  parse, and must carry an email); then the configuration and the name are written. The
  first error ends the stage; what was written before it stays written.
\<close>

definition switchAccount_write ::
  "env \<Rightarrow> account \<Rightarrow> string option \<times> string option \<times> string option \<Rightarrow> world
     \<Rightarrow> (js_error + unit) \<times> world" where
  "switchAccount_write env account creds w =
     (let (key, nm, url) = creds;
          (sessionId, w1) = uuidv4 env w;
          (sealed, w2) = encryptSessions env (sessions_json sessionId key nm) w1
      in case sealed of
           Inl e \<Rightarrow> (Inl e, w2)
         | Inr encrypted \<Rightarrow>
            if encrypted = [] then (Inl (Error ''encrypted buffer is empty''), w2)
            else
            (case writeToDB env sessionsKey (Buffer encrypted) w2 of
               Inl e \<Rightarrow> (Inl e, w2)
             | Inr w3 \<Rightarrow>
              (case readback_sessions env w3 of
                 Some e \<Rightarrow> (Inl e, w3)
               | None \<Rightarrow>
                (let (teamId, w4) = uuidv4 env w3
                 in case writeToDB env ''windsurfAuthStatus''
                           (Object (authStatus_json nm key (email account) teamId)) w4 of
                      Inl e \<Rightarrow> (Inl e, w4)
                    | Inr w5 \<Rightarrow>
                     (case readback_authStatus env w5 of
                        Some e \<Rightarrow> (Inl e, w5)
                      | None \<Rightarrow>
                       (let (installationId, w6) = uuidv4 env w5
                        in case writeToDB env ''codeium.windsurf''
                                  (Object (codeiumConfig_json installationId url)) w6 of
                             Inl e \<Rightarrow> (Inl e, w6)
                           | Inr w7 \<Rightarrow>
                            (case writeToDB env ''codeium.windsurf-windsurf_auth''
                                    (string_value nm) w7 of
                               Inl e \<Rightarrow> (Inl e, w7)
                             | Inr w8 \<Rightarrow> (Inr (), w8))))))))"

section \<open>The forwarding relay\<close>

record request =
  req_method :: string
  req_contentType :: "string option"
  req_query :: "(string \<times> string) list"
  req_body :: string

record response =
  res_status :: nat
  res_headers :: "(string \<times> string) list"
  res_body :: "string option"

record js_exception =
  message :: string
  stack :: "string option"

record upstream =
  up_status :: nat
  up_body :: string

text \<open>
  What the worker's runtime provides: the parser of form data, the \<^verbatim>\<open>json()\<close> reader
  of a body, the TypeError raised by reading a member of \<^verbatim>\<open>null\<close>, the error the
  \<^verbatim>\<open>Response\<close> constructor raises for a status it cannot carry, and the token endpoint
  behind \<^verbatim>\<open>fetch\<close>, as a function of the three fields the request sent to it is built
  from (API key, grant type, refresh token).
\<close>

record worker_env =
  URLSearchParams :: "string \<Rightarrow> (string \<times> string) list"
  body_json :: "string \<Rightarrow> js_exception + json"
  null_member_error :: js_exception
  status_error :: js_exception
  fetch :: "json \<times> json \<times> json \<Rightarrow> js_exception + upstream"

fun starts_with :: "string \<Rightarrow> string \<Rightarrow> bool" where
  "starts_with s [] = True"
| "starts_with [] (c # cs) = False"
| "starts_with (d # ds) (c # cs) = (d = c \<and> starts_with ds cs)"

fun js_includes :: "string \<Rightarrow> string \<Rightarrow> bool" where
  "js_includes [] sub = (sub = [])"
| "js_includes (c # cs) sub = (starts_with (c # cs) sub \<or> js_includes cs sub)"

text \<open>\<^verbatim>\<open>params.get(name)\<close>: the first value, or \<^verbatim>\<open>null\<close>.\<close>

definition params_get :: "(string \<times> string) list \<Rightarrow> string \<Rightarrow> json option" where
  "params_get ps k = (case map_of ps k of None \<Rightarrow> Some JNull | Some v \<Rightarrow> Some (JStr v))"

text \<open>\<^verbatim>\<open>!x\<close> for a field that may be \<^verbatim>\<open>undefined\<close>.\<close>

definition falsy :: "json option \<Rightarrow> bool" where
  "falsy x = (\<not> truthy_member x)"

fun the_field :: "json option \<Rightarrow> json" where
  "the_field None = JNull"
| "the_field (Some v) = v"

definition json_error_response :: "nat \<Rightarrow> json \<Rightarrow> response" where
  "json_error_response st doc =
     \<lparr>res_status = st,
      res_headers = [(''Content-Type'', ''application/json''), (''Access-Control-Allow-Origin'', ''*'')],
      res_body = Some (JSON_stringify doc)\<rparr>"

definition internal_error :: "js_exception \<Rightarrow> response" where
  "internal_error ex =
     json_error_response 500
       (JObj (object_of [(''error'', Some (JStr (message ex))), (''stack'', str (stack ex))]))"

definition bad_request :: "string \<Rightarrow> response" where
  "bad_request msg = json_error_response 400 (JObj [(''error'', JStr msg)])"

text \<open>
  The statuses a \<^verbatim>\<open>Response\<close> with a body can be built with: 200 to 599 except the
  null-body statuses.
\<close>

definition body_status :: "nat \<Rightarrow> bool" where
  "body_status st = (200 \<le> st \<and> st \<le> 599 \<and> st \<noteq> 204 \<and> st \<noteq> 205 \<and> st \<noteq> 304)"

text \<open>
  The three fields of a POST request, from the query and the form body or from the JSON
  body, in the order API key, grant type, refresh token.
\<close>

definition request_fields ::
  "worker_env \<Rightarrow> request \<Rightarrow> js_exception + json option \<times> json option \<times> json option" where
  "request_fields wenv request =
     (if js_includes (case req_contentType request of None \<Rightarrow> [] | Some c \<Rightarrow> c)
           ''application/x-www-form-urlencoded''
      then (let params = URLSearchParams wenv (req_body request)
            in Inr (params_get (req_query request) ''key'',
                    params_get params ''grant_type'',
                    params_get params ''refresh_token''))
      else (case body_json wenv (req_body request) of
              Inl ex \<Rightarrow> Inl ex
            | Inr body \<Rightarrow>
                if body = JNull then Inl (null_member_error wenv)
                else Inr (member body ''api_key'', member body ''grant_type'',
                          member body ''refresh_token'')))"

definition forwarded_headers :: "(string \<times> string) list" where
  "forwarded_headers =
     [(''Content-Type'', ''application/json''),
      (''Access-Control-Allow-Origin'', ''*''),
      (''Access-Control-Allow-Methods'', ''POST, OPTIONS''),
      (''Access-Control-Allow-Headers'', ''Content-Type'')]"

text \<open>
  \<^verbatim>\<open>handleRequest\<close>, with the list of requests it sent upstream.
\<close>

definition handleRequest ::
  "worker_env \<Rightarrow> request \<Rightarrow> response \<times> (json \<times> json \<times> json) list" where
  "handleRequest wenv request =
     (if req_method request = ''OPTIONS''
      then (\<lparr>res_status = 200,
             res_headers = [(''Access-Control-Allow-Origin'', ''*''),
                            (''Access-Control-Allow-Methods'', ''POST, OPTIONS''),
                            (''Access-Control-Allow-Headers'', ''Content-Type'')],
             res_body = None\<rparr>, [])
      else if req_method request \<noteq> ''POST''
      then (\<lparr>res_status = 405, res_headers = [], res_body = Some ''Method not allowed''\<rparr>, [])
      else (case request_fields wenv request of
              Inl ex \<Rightarrow> (internal_error ex, [])
            | Inr (api_key, grant_type, refresh_token) \<Rightarrow>
                if falsy api_key then (bad_request ''Missing API key'', [])
                else if falsy grant_type \<or> falsy refresh_token
                then (bad_request ''Missing grant_type or refresh_token'', [])
                else (let sent = (the_field api_key, the_field grant_type, the_field refresh_token)
                      in case fetch wenv sent of
                           Inl ex \<Rightarrow> (internal_error ex, [sent])
                         | Inr up \<Rightarrow>
                             (case body_json wenv (up_body up) of
                                Inl ex \<Rightarrow> (internal_error ex, [sent])
                              | Inr data \<Rightarrow>
                                  if body_status (up_status up)
                                  then (\<lparr>res_status = up_status up,
                                         res_headers = forwarded_headers,
                                         res_body = Some (JSON_stringify data)\<rparr>, [sent])
                                  else (internal_error (status_error wenv), [sent])))))"

section \<open>Observing and driving the engine\<close>

text \<open>The number of entries into the account-data write sequence so far.\<close>

definition attempts :: "world \<Rightarrow> nat" where
  "attempts w = count_list (trace w) WriteAccountDataCalled"

text \<open>
  An external writer that puts the text \<open>v\<close> into the Auth Status row of the store at
  \<open>path\<close> (and does nothing when there is no readable store).
\<close>

definition external_writer :: "string \<Rightarrow> string \<Rightarrow> world \<Rightarrow> world" where
  "external_writer path v w =
     w\<lparr>files := (files w)(path := map_option (\<lambda>t. insert_or_replace t ''windsurfAuthStatus'' v)
                                      (files w path))\<rparr>"

text \<open>The text \<^verbatim>\<open>writeToDB\<close> stores for a value it accepts.\<close>

fun marshal :: "js_value \<Rightarrow> string" where
  "marshal (Buffer bs) = JSON_stringify (buffer_json bs)"
| "marshal (Object j) = JSON_stringify j"
| "marshal (String s) = s"
| "marshal v = []"

text \<open>
  The token \<^verbatim>\<open>createEncryptedSessions\<close> seals and logs: \<^verbatim>\<open>idToken\<close> when it is truthy,
  else \<^verbatim>\<open>accessToken\<close> when it is truthy, else \<^verbatim>\<open>apiKey\<close>, which may be \<^verbatim>\<open>undefined\<close>.
\<close>

definition tokenToUse :: "account \<Rightarrow> string option" where
  "tokenToUse account =
     (if truthy (idToken account) then idToken account
      else if truthy (accessToken account) then accessToken account
      else apiKey account)"

text \<open>
  The account as the first step of \<^verbatim>\<open>writeAccountData\<close> leaves it: with the tokens of
  the endpoint when they were fetched, unchanged otherwise.
\<close>

definition fetched :: "env \<Rightarrow> account \<Rightarrow> account" where
  "fetched env account =
     (case refreshToken account of
        Some rt \<Rightarrow>
          if \<not> truthy (idToken account) \<and> \<not> truthy (accessToken account) \<and> rt \<noteq> []
          then (case tokenEndpoint env rt of
                  None \<Rightarrow> account
                | Some d \<Rightarrow> account\<lparr>idToken := tok_id_token d,
                     accessToken := (if truthy (tok_access_token d) then tok_access_token d
                                     else tok_id_token d)\<rparr>)
          else account
      | None \<Rightarrow> account)"

text \<open>
  The content type the relay tests: the header, or the empty string when there is none.
\<close>

definition contentType :: "request \<Rightarrow> string" where
  "contentType request = (case req_contentType request of None \<Rightarrow> [] | Some c \<Rightarrow> c)"

section \<open>Concrete data for the worked runs\<close>

definition demo_db :: string where
  "demo_db = ''/Users/u/Library/Application Support/Windsurf/User/globalStorage/state.vscdb''"

definition demo_account :: account where
  "demo_account = \<lparr>acc_id = Some ''1'', email = Some ''b@x.com'', name = Some ''Bob'',
     apiKey = Some ''sk-b'', apiServerUrl = Some ''https://s.example'', refreshToken = None,
     idToken = None, accessToken = None\<rparr>"

definition intruder_doc :: json where
  "intruder_doc = JObj [(''email'', JStr ''a@x.com'')]"

definition demo_docs :: "json list" where
  "demo_docs = [intruder_doc,
                authStatus_json (Some ''Bob'') (Some ''sk-b'') (Some ''b@x.com'') ''id'']"

text \<open>A parser that knows the documents of \<open>demo_docs\<close> and rejects every other text.\<close>

definition demo_parse :: "string \<Rightarrow> json option" where
  "demo_parse s = map_of (map (\<lambda>d. (JSON_stringify d, d)) demo_docs) s"

definition demo_env :: env where
  "demo_env = \<lparr>platform = Darwin, homeDir = ''/Users/u'',
     appDataDir = ''/Users/u/Library/Application Support'', envHOME = ''/Users/u'',
     cipher = (\<lambda>dir text. [length dir, length text]), JSON_parse = demo_parse,
     uuid_source = (\<lambda>n. ''id''), tokenEndpoint = (\<lambda>rt. None),
     registerEndpoint = (\<lambda>t. None)\<rparr>"

definition demo_world :: world where
  "demo_world = \<lparr>files = (\<lambda>p. None)(demo_db := Some []), writable = (\<lambda>p. True),
     encryptionAvailable = True, accountsJson = None,
     userData = ''/Users/u/Library/Application Support/windsurf-tool'', entropy = 0,
     timers = [], nextTimer = 1, trace = []\<rparr>"

definition demo_persister :: persister where
  "demo_persister = \<lparr>isMonitoring = False, monitorInterval = None, lastWrittenData = None,
     writeCount = 0\<rparr>"

definition locked_world :: world where
  "locked_world = demo_world\<lparr>encryptionAvailable := False\<rparr>"

definition unlock :: "nat \<Rightarrow> nat \<Rightarrow> world \<Rightarrow> world" where
  "unlock i delay w = w\<lparr>encryptionAvailable := True\<rparr>"

definition unreadable_world :: world where
  "unreadable_world = demo_world\<lparr>files := (\<lambda>p. None)\<rparr>"

definition intruder_world :: world where
  "intruder_world =
     demo_world\<lparr>files := (\<lambda>p. None)(demo_db := Some [(''windsurfAuthStatus'', JSON_stringify intruder_doc)])\<rparr>"

definition stale_world :: world where
  "stale_world = demo_world\<lparr>files := (\<lambda>p. None)(demo_db := Some
     [(''windsurf_auth-a@x.com'', ''old''), (''windsurfAuthStatus'', ''kept''),
      (''Windsurf_Auth-c'', ''old'')])\<rparr>"

text \<open>The permissive CORS header.\<close>

definition cors :: "response \<Rightarrow> bool" where
  "cors r = ((''Access-Control-Allow-Origin'', ''*'') \<in> set (res_headers r))"

definition demo_wenv :: worker_env where
  \<open>demo_wenv = \<lparr>
     URLSearchParams = (\<lambda>s. if s = ''grant_type=refresh_token&refresh_token=r1''
        then [(''grant_type'', ''refresh_token''), (''refresh_token'', ''r1'')] else []),
     body_json = (\<lambda>s. if s = ''{"id_token":"t"}'' then Inr (JObj [(''id_token'', JStr ''t'')])
        else if s = ''{}'' then Inr (JObj [])
        else if s = ''{"grant_type":"refresh_token","refresh_token":"r2","api_key":"K2"}''
        then Inr (JObj [(''grant_type'', JStr ''refresh_token''), (''refresh_token'', JStr ''r2''),
                        (''api_key'', JStr ''K2'')])
        else Inl \<lparr>message = ''Unexpected token'', stack = None\<rparr>),
     null_member_error = \<lparr>message = ''Cannot read properties of null'', stack = None\<rparr>,
     status_error = \<lparr>message = ''init status out of range'', stack = None\<rparr>,
     fetch = (\<lambda>sent. Inr \<lparr>up_status = 200, up_body = ''{"id_token":"t"}''\<rparr>)\<rparr>\<close>

text \<open>
  A worker whose upstream answers 502 with a body that is not JSON, on a runtime whose
  exceptions carry a stack.
\<close>

definition flaky_wenv :: worker_env where
  "flaky_wenv = demo_wenv\<lparr>
     body_json := (\<lambda>s. Inl \<lparr>message = ''Unexpected token'', stack = Some ''SyntaxError at json''\<rparr>),
     fetch := (\<lambda>sent. Inr \<lparr>up_status = 502, up_body = ''Bad Gateway''\<rparr>)\<rparr>"

definition form_request :: request where
  "form_request = \<lparr>req_method = ''POST'',
     req_contentType = Some ''application/x-www-form-urlencoded'',
     req_query = [(''key'', ''K'')],
     req_body = ''grant_type=refresh_token&refresh_token=r1''\<rparr>"

definition empty_request :: request where
  "empty_request = \<lparr>req_method = ''POST'', req_contentType = Some ''application/json'',
     req_query = [], req_body = ''{}''\<rparr>"

definition broken_request :: request where
  "broken_request = \<lparr>req_method = ''POST'', req_contentType = Some ''application/json'',
     req_query = [], req_body = ''oops''\<rparr>"

definition json_request :: request where
  \<open>json_request = \<lparr>req_method = ''POST'', req_contentType = Some ''application/json'',
     req_query = [],
     req_body = ''{"grant_type":"refresh_token","refresh_token":"r2","api_key":"K2"}''\<rparr>\<close>

definition bare_request :: request where
  "bare_request = \<lparr>req_method = ''POST'',
     req_contentType = Some ''application/x-www-form-urlencoded; charset=utf-8'',
     req_query = [(''key'', ''K'')], req_body = []\<rparr>"

definition demo_rows :: table where
  \<open>demo_rows =
     [(sessionsKey, ''{"type":"Buffer","data":[45,83]}''),
      (''windsurfAuthStatus'',
       ''{"name":"Bob","apiKey":"sk-b","email":"b@x.com","teamId":"id","planName":"Pro"}''),
      (''codeium.windsurf'',
       ''{"codeium.installationId":"id","apiServerUrl":"https://s.example","codeium.hasOneTimeUpdatedUnspecifiedMode":true}''),
      (''codeium.windsurf-windsurf_auth'', ''Bob'')]\<close>

definition demo_options :: options where
  "demo_options = \<lparr>opt_interval = Some 3000, opt_maxRetries = Some 2\<rparr>"

definition intruder_text :: string where
  "intruder_text = JSON_stringify intruder_doc"

definition demo_timer :: timer where
  "demo_timer = \<lparr>t_account = demo_account, t_maxRetries = 2, t_interval = 3000, retryCount = 0\<rparr>"

definition monitoring :: "persister \<times> world" where
  "monitoring = snd (startMonitoring demo_env demo_account demo_options (demo_persister, demo_world))"

definition failing :: "persister \<times> world" where
  "failing = snd (startMonitoring demo_env demo_account demo_options (demo_persister, locked_world))"

text \<open>
  An account with no token at all, and one whose only token is a Firebase \<^verbatim>\<open>idToken\<close>;
  the monitors started for them on the demo machine.
\<close>

definition tokenless_account :: account where
  "tokenless_account = \<lparr>acc_id = Some ''2'', email = Some ''b@x.com'', name = Some ''Bob'',
     apiKey = None, apiServerUrl = None, refreshToken = None, idToken = None, accessToken = None\<rparr>"

definition firebase_account :: account where
  "firebase_account = \<lparr>acc_id = Some ''3'', email = Some ''b@x.com'', name = Some ''Bob'',
     apiKey = None, apiServerUrl = None, refreshToken = None, idToken = Some ''tok'',
     accessToken = None\<rparr>"

definition tokenless_timer :: timer where
  "tokenless_timer = \<lparr>t_account = tokenless_account, t_maxRetries = 2, t_interval = 3000, retryCount = 0\<rparr>"

definition firebase_timer :: timer where
  "firebase_timer = \<lparr>t_account = firebase_account, t_maxRetries = 2, t_interval = 3000, retryCount = 0\<rparr>"

definition starving :: "persister \<times> world" where
  "starving = snd (startMonitoring demo_env tokenless_account demo_options (demo_persister, demo_world))"

definition fed :: "persister \<times> world" where
  "fed = snd (startMonitoring demo_env firebase_account demo_options (demo_persister, demo_world))"

definition three_overwrites :: "string list" where
  "three_overwrites = [intruder_text, intruder_text, intruder_text]"

definition two_overwrites :: "string list" where
  "two_overwrites = [intruder_text, intruder_text]"

section \<open>Properties\<close>

lemma demo_dbPath: "dbPath (getWindsurfPaths demo_env) = demo_db"
  by (simp add: getWindsurfPaths_def demo_env_def path_join_def demo_db_def)

lemma demo_getDBPath: "getDBPath demo_env = Inr demo_db"
  by (simp add: getDBPath_def demo_env_def path_join_def demo_db_def)

subsection \<open>Null values at the two upserts\<close>

lemma writeToDB_rejects_null:
  "v = Null \<or> v = Undefined \<Longrightarrow>
     writeToDB env key v w = Inl (InvalidValue key) \<or> writeToDB env key v w = Inl UnsupportedPlatform"
  by (auto simp: writeToDB_def getDBPath_def split: platform.splits)

text \<open>
  C3. A \<^verbatim>\<open>null\<close> value handed to the upsert must raise and write nothing, at every
  upsert of the engine. \<^verbatim>\<open>AccountSwitcher.writeToDB\<close> does so (lemma
  \<open>writeToDB_rejects_null\<close>); \<^verbatim>\<open>ConfigPersister.writeToDatabase\<close> has no such test: on a
  readable, writable store it returns \<^verbatim>\<open>true\<close> and the row holds the text \<^verbatim>\<open>null\<close>.
\<close>

theorem writeToDatabase_null_is_written:
  "writeToDatabase demo_env ''windsurfAuthStatus'' Null demo_world =
     (True, demo_world\<lparr>files := (files demo_world)(demo_db := Some [(''windsurfAuthStatus'', ''null'')]),
                       trace := [FileWritten demo_db]\<rparr>)"
  by (simp add: writeToDatabase_def demo_dbPath readFile_def writeFile_def demo_world_def
      insert_or_replace_def)

subsection \<open>What each step leaves alone\<close>

lemma uuidv4_frame [simp]:
  "files (snd (uuidv4 env w)) = files w"
  "writable (snd (uuidv4 env w)) = writable w"
  "encryptionAvailable (snd (uuidv4 env w)) = encryptionAvailable w"
  "accountsJson (snd (uuidv4 env w)) = accountsJson w"
  "userData (snd (uuidv4 env w)) = userData w"
  "timers (snd (uuidv4 env w)) = timers w"
  "nextTimer (snd (uuidv4 env w)) = nextTimer w"
  "trace (snd (uuidv4 env w)) = trace w"
  "attempts (snd (uuidv4 env w)) = attempts w"
  by (simp_all add: uuidv4_def attempts_def)

lemma writeToDatabase_frame [simp]:
  "writable (snd (writeToDatabase env k v w)) = writable w"
  "encryptionAvailable (snd (writeToDatabase env k v w)) = encryptionAvailable w"
  "accountsJson (snd (writeToDatabase env k v w)) = accountsJson w"
  "userData (snd (writeToDatabase env k v w)) = userData w"
  "timers (snd (writeToDatabase env k v w)) = timers w"
  "nextTimer (snd (writeToDatabase env k v w)) = nextTimer w"
  "attempts (snd (writeToDatabase env k v w)) = attempts w"
  by (simp_all add: writeToDatabase_def writeFile_def attempts_def split: sum.splits js_value.splits)

lemma writeToDatabase_other_files:
  "path \<noteq> dbPath (getWindsurfPaths env) \<Longrightarrow> files (snd (writeToDatabase env k v w)) path = files w path"
  by (simp add: writeToDatabase_def writeFile_def split: sum.splits js_value.splits)

lemma writeToDatabase_blocked:
  "files w (dbPath (getWindsurfPaths env)) = None \<or> \<not> writable w (dbPath (getWindsurfPaths env)) \<Longrightarrow>
     writeToDatabase env k v w = (False, w)"
  by (auto simp: writeToDatabase_def writeFile_def readFile_def split: sum.splits js_value.splits option.splits)

lemma getFirebaseTokens_world:
  "snd (getFirebaseTokens env rt w) = w\<lparr>trace := trace w @ [HttpPost WORKER_URL]\<rparr>"
  by (simp add: getFirebaseTokens_def Let_def split: option.splits)

lemma ensure_tokens_world:
  "snd (ensure_tokens env a w) = w \<or>
   snd (ensure_tokens env a w) = w\<lparr>trace := trace w @ [HttpPost WORKER_URL]\<rparr>"
proof (cases "refreshToken a")
  case None
  then show ?thesis by (simp add: ensure_tokens_def)
next
  case (Some rt)
  obtain r w' where g: "getFirebaseTokens env rt w = (r, w')"
    by (cases "getFirebaseTokens env rt w")
  then have "w' = w\<lparr>trace := trace w @ [HttpPost WORKER_URL]\<rparr>"
    using getFirebaseTokens_world[of env rt w] by simp
  then show ?thesis
    using Some g by (simp add: ensure_tokens_def split: sum.splits prod.splits)
qed

lemma ensure_tokens_frame [simp]:
  "files (snd (ensure_tokens env a w)) = files w"
  "writable (snd (ensure_tokens env a w)) = writable w"
  "encryptionAvailable (snd (ensure_tokens env a w)) = encryptionAvailable w"
  "accountsJson (snd (ensure_tokens env a w)) = accountsJson w"
  "userData (snd (ensure_tokens env a w)) = userData w"
  "timers (snd (ensure_tokens env a w)) = timers w"
  "nextTimer (snd (ensure_tokens env a w)) = nextTimer w"
  "attempts (snd (ensure_tokens env a w)) = attempts w"
  using ensure_tokens_world[of env a w] by (auto simp: attempts_def)

lemma ensure_tokens_account [simp]:
  "email (fst (ensure_tokens env a w)) = email a"
  "name (fst (ensure_tokens env a w)) = name a"
  "apiKey (fst (ensure_tokens env a w)) = apiKey a"
  "apiServerUrl (fst (ensure_tokens env a w)) = apiServerUrl a"
  by (simp_all add: ensure_tokens_def split: option.splits prod.splits sum.splits)

lemma createEncryptedSessions_world [simp]:
  "snd (createEncryptedSessions env a w) = w\<lparr>entropy := Suc (entropy w)\<rparr>"
  by (simp add: createEncryptedSessions_def setPath_userData_def uuidv4_def Let_def
      split: sum.splits prod.splits)

lemma attempts_entropy [simp]: "attempts (w\<lparr>entropy := n\<rparr>) = attempts w"
  by (simp add: attempts_def)

lemma write_rows_frame [simp]:
  "writable (write_rows env a enc w) = writable w"
  "encryptionAvailable (write_rows env a enc w) = encryptionAvailable w"
  "accountsJson (write_rows env a enc w) = accountsJson w"
  "userData (write_rows env a enc w) = userData w"
  "timers (write_rows env a enc w) = timers w"
  "nextTimer (write_rows env a enc w) = nextTimer w"
  "attempts (write_rows env a enc w) = attempts w"
  by (simp_all add: write_rows_def Let_def split_beta)

lemma writeAccountData_frame [simp]:
  "writable (snd (snd (writeAccountData env a (p, w)))) = writable w"
  "encryptionAvailable (snd (snd (writeAccountData env a (p, w)))) = encryptionAvailable w"
  "accountsJson (snd (snd (writeAccountData env a (p, w)))) = accountsJson w"
  "userData (snd (snd (writeAccountData env a (p, w)))) = userData w"
  "timers (snd (snd (writeAccountData env a (p, w)))) = timers w"
  "nextTimer (snd (snd (writeAccountData env a (p, w)))) = nextTimer w"
  "isMonitoring (fst (snd (writeAccountData env a (p, w)))) = isMonitoring p"
  "monitorInterval (fst (snd (writeAccountData env a (p, w)))) = monitorInterval p"
  "email (snd (fst (writeAccountData env a (p, w)))) = email a"
  by (simp_all add: writeAccountData_def Let_def split_beta split: sum.splits)

lemma attempts_called [simp]:
  "attempts (w\<lparr>trace := trace w @ [WriteAccountDataCalled]\<rparr>) = Suc (attempts w)"
  by (simp add: attempts_def)

lemma writeAccountData_attempts [simp]:
  "attempts (snd (snd (writeAccountData env a (p, w)))) = Suc (attempts w)"
  by (simp add: writeAccountData_def Let_def split_beta split: sum.splits)

lemma sleep_frame [simp]:
  "attempts (sleep others w) = attempts w"
  "timers (sleep others w) = timers w"
  "nextTimer (sleep others w) = nextTimer w"
  "userData (sleep others w) = userData w"
  "trace (sleep others w) = trace w"
  by (simp_all add: sleep_def attempts_def)


lemma forceWrite_loop_attempts:
  "attempts (snd (snd (forceWrite_loop env others a i n d (p, w)))) = attempts w + (Suc n - i)"
proof (induction "Suc n - i" arbitrary: i a p w)
  case 0
  then have "\<not> i \<le> n" by simp
  then show ?case by (simp add: forceWrite_loop.simps[of _ _ _ i])
next
  case (Suc k)
  then have le: "i \<le> n" and k: "k = Suc n - Suc i" by simp_all
  obtain written a' p1 w1 where wr: "writeAccountData env a (p, w) = ((written, a'), p1, w1)"
    by (metis surj_pair)
  have w1: "attempts w1 = Suc (attempts w)"
    using writeAccountData_attempts[of env a p w] wr by simp
  let ?w2 = "if i < n then sleep (others i d) w1 else w1"
  have "attempts (snd (snd (forceWrite_loop env others a' (Suc i) n d (p1, ?w2)))) =
          attempts ?w2 + (Suc n - Suc i)"
    using Suc.hyps(1)[OF k] .
  then show ?case
    using le wr w1 by (simp add: forceWrite_loop.simps[of _ _ _ i])
qed

lemma forceWrite_loop_email:
  "email (fst (forceWrite_loop env others a i n d (p, w))) = email a"
proof (induction "Suc n - i" arbitrary: i a p w)
  case 0
  then have "\<not> i \<le> n" by simp
  then show ?case by (simp add: forceWrite_loop.simps[of _ _ _ i])
next
  case (Suc k)
  then have le: "i \<le> n" and k: "k = Suc n - Suc i" by simp_all
  obtain written a' p1 w1 where wr: "writeAccountData env a (p, w) = ((written, a'), p1, w1)"
    by (metis surj_pair)
  have a': "email a' = email a"
    using writeAccountData_frame(9)[of env a p w] wr by simp
  let ?w2 = "if i < n then sleep (others i d) w1 else w1"
  have "email (fst (forceWrite_loop env others a' (Suc i) n d (p1, ?w2))) = email a'"
    using Suc.hyps(1)[OF k] .
  then show ?case
    using le wr a' by (simp add: forceWrite_loop.simps[of _ _ _ i])
qed

subsection \<open>Forced write\<close>

text \<open>
  C1. \<^verbatim>\<open>forceWrite\<close> with \<open>times = n\<close> and any delay enters the account-data write
  sequence exactly \<open>n\<close> times, whatever each attempt returns and whatever the other
  processes do during the delays, and its result is true exactly when the final
  \<^verbatim>\<open>verifyLoginStatus\<close> succeeds and the email of the document it read equals the
  account's email.
\<close>

theorem forceWrite_attempts_and_result:
  assumes "forceWrite env others a n d (p, w) = (r, a', p', w')"
  shows "attempts w' = attempts w + n \<and>
         (r \<longleftrightarrow> success (verifyLoginStatus env p' w') \<and>
               (\<exists>v. authStatus (verifyLoginStatus env p' w') = Some v \<and>
                    strict_eq (member v ''email'') (email a)))"
proof -
  obtain a1 p1 w1 where loop: "forceWrite_loop env others a 1 n d (p, w) = (a1, p1, w1)"
    by (metis surj_pair)
  from assms loop have eqs: "a' = a1" "p' = p1" "w' = w1"
    by (simp_all add: forceWrite_def Let_def)
  have "attempts w1 = attempts w + n"
    using forceWrite_loop_attempts[of env others a 1 n d p w] loop by simp
  then have count: "attempts w' = attempts w + n" using eqs by simp
  have "email a1 = email a"
    using forceWrite_loop_email[of env others a 1 n d p w] loop by simp
  then have "r \<longleftrightarrow> success (verifyLoginStatus env p' w') \<and>
           (\<exists>v. authStatus (verifyLoginStatus env p' w') = Some v \<and>
                strict_eq (member v ''email'') (email a))"
    using assms loop eqs by (auto simp: forceWrite_def Let_def split: option.splits)
  with count show ?thesis by simp
qed

text \<open>
  A run of two attempts: encryption is unavailable at the first, which fails, and
  available at the second. Two attempts are counted, one write round is recorded, and
  the result is true.
\<close>

theorem forceWrite_attempts_and_result_witness:
  "attempts (snd (snd (snd (forceWrite demo_env unlock demo_account 2 1000 (demo_persister, locked_world))))) = 2 \<and>
   writeCount (fst (snd (snd (forceWrite demo_env unlock demo_account 2 1000 (demo_persister, locked_world))))) = 1 \<and>
   fst (forceWrite demo_env unlock demo_account 2 1000 (demo_persister, locked_world))"
proof -
  let ?r = "forceWrite demo_env unlock demo_account 2 1000 (demo_persister, locked_world)"
  have e: "?r = (fst ?r, fst (snd ?r), fst (snd (snd ?r)), snd (snd (snd ?r)))"
    by simp
  have "attempts (snd (snd (snd ?r))) = attempts locked_world + 2"
    using forceWrite_attempts_and_result[OF e] by blast
  moreover have "attempts locked_world = 0"
    by code_simp
  moreover have "writeCount (fst (snd (snd ?r))) = 1"
    by code_simp
  moreover have "fst ?r"
    by code_simp
  ultimately show ?thesis by simp
qed

subsection \<open>Sealing under the target's directory\<close>

text \<open>
  C5. Both sealing operations redirect \<^verbatim>\<open>userData\<close> to the target's directory for the
  encryption and set it back on every path. \<^verbatim>\<open>encryptSessions\<close> returns the machine
  exactly as it found it, with a result or with an error; \<^verbatim>\<open>createEncryptedSessions\<close>
  returns it with one more identifier drawn and nothing else changed. The sealed bytes
  are those of the cipher under the target's directory.
\<close>

theorem sealing_restores_userData:
  "snd (encryptSessions env d w) = w \<and>
   snd (createEncryptedSessions env a w) = w\<lparr>entropy := Suc (entropy w)\<rparr> \<and>
   (\<forall>dir. encryptionAvailable w \<and> getUserDataPath env = Inr dir \<longrightarrow>
      fst (encryptSessions env d w) = Inr (cipher env dir (JSON_stringify d))) \<and>
   (\<forall>enc. fst (createEncryptedSessions env a w) = Inr enc \<longrightarrow>
      (\<exists>text. enc = cipher env (windsurfPath (getWindsurfPaths env)) text))"
  by (auto simp: encryptSessions_def createEncryptedSessions_def setPath_userData_def uuidv4_def
      Let_def encryptString_def split: sum.splits prod.splits option.splits if_splits)

theorem sealing_restores_userData_witness:
  "encryptionAvailable demo_world \<and>
   getUserDataPath demo_env = Inr ''/Users/u/Library/Application Support/Windsurf'' \<and>
   fst (encryptSessions demo_env (JArr []) demo_world) = Inr [45, 2] \<and>
   snd (encryptSessions demo_env (JArr []) demo_world) = demo_world \<and>
   userData demo_world = ''/Users/u/Library/Application Support/windsurf-tool'' \<and>
   fst (createEncryptedSessions demo_env demo_account locked_world) = Inl EncryptionError \<and>
   userData (snd (createEncryptedSessions demo_env demo_account locked_world)) = userData locked_world"
proof -
  have a: "encryptionAvailable demo_world"
    by (simp add: demo_world_def)
  have b: "getUserDataPath demo_env = Inr ''/Users/u/Library/Application Support/Windsurf''"
    by (simp add: getUserDataPath_def demo_env_def path_join_def)
  note t = sealing_restores_userData[of demo_env "JArr []" demo_world demo_account]
  have "fst (encryptSessions demo_env (JArr []) demo_world) =
          Inr (cipher demo_env ''/Users/u/Library/Application Support/Windsurf'' (JSON_stringify (JArr [])))"
    using t a b by blast
  then have c: "fst (encryptSessions demo_env (JArr []) demo_world) = Inr [45, 2]"
    by (simp add: demo_env_def)
  have d: "snd (encryptSessions demo_env (JArr []) demo_world) = demo_world"
    using t by blast
  have e: "userData demo_world = ''/Users/u/Library/Application Support/windsurf-tool''"
    by (simp add: demo_world_def)
  have f: "fst (createEncryptedSessions demo_env demo_account locked_world) = Inl EncryptionError"
    by (simp add: createEncryptedSessions_def Let_def uuidv4_def encryptString_def
        setPath_userData_def locked_world_def demo_world_def split: prod.splits)
  have g: "userData (snd (createEncryptedSessions demo_env demo_account locked_world)) = userData locked_world"
    using sealing_restores_userData[of demo_env "JArr []" locked_world demo_account] by simp
  from a b c d e f g show ?thesis by blast
qed

subsection \<open>When the write sequence returns true\<close>

lemma ensure_tokens_fetched: "fst (ensure_tokens env a w) = fetched env a"
  by (simp add: ensure_tokens_def fetched_def getFirebaseTokens_def Let_def split: option.splits)

lemma fetched_idem: "fetched env (fetched env a) = fetched env a"
  by (auto simp: fetched_def split: option.splits)

lemma createEncryptedSessions_result:
  "fst (createEncryptedSessions env a w) =
     (if encryptionAvailable w
      then (case tokenToUse a of None \<Rightarrow> Inl TypeError
            | Some t \<Rightarrow> Inr (cipher env (windsurfPath (getWindsurfPaths env))
                 (JSON_stringify (sessions_json (uuid_source env (entropy w)) (tokenToUse a) (name a)))))
      else Inl EncryptionError)"
  by (simp add: createEncryptedSessions_def Let_def uuidv4_def encryptString_def setPath_userData_def
      tokenToUse_def split: option.splits)

lemma writeAccountData_result:
  "fst (fst (writeAccountData env a (p, w))) \<longleftrightarrow>
     encryptionAvailable w \<and> tokenToUse (fetched env a) \<noteq> None"
  "snd (fst (writeAccountData env a (p, w))) = fetched env a"
proof -
  let ?w0 = "w\<lparr>trace := trace w @ [WriteAccountDataCalled]\<rparr>"
  have a: "fst (ensure_tokens env a ?w0) = fetched env a" by (rule ensure_tokens_fetched)
  have e: "encryptionAvailable (snd (ensure_tokens env a ?w0)) = encryptionAvailable w" by simp
  show "fst (fst (writeAccountData env a (p, w))) \<longleftrightarrow>
     encryptionAvailable w \<and> tokenToUse (fetched env a) \<noteq> None"
    using createEncryptedSessions_result[of env "fetched env a" "snd (ensure_tokens env a ?w0)"] e
    by (auto simp: writeAccountData_def Let_def split_beta a split: sum.splits option.splits if_splits)
  show "snd (fst (writeAccountData env a (p, w))) = fetched env a"
    by (simp add: writeAccountData_def Let_def split_beta a split: sum.splits)
qed

lemma rewrite_persists:
  assumes "encryptionAvailable w' = encryptionAvailable w"
  shows "fst (fst (writeAccountData env (snd (fst (writeAccountData env a (p, w)))) (p', w'))) =
         fst (fst (writeAccountData env a (p, w)))"
  using assms by (simp add: writeAccountData_result fetched_idem)

subsection \<open>A write round that persists nothing\<close>

lemma write_rows_blocked:
  assumes "files w (dbPath (getWindsurfPaths env)) = None \<or> \<not> writable w (dbPath (getWindsurfPaths env))"
  shows "files (write_rows env a enc w) = files w"
proof -
  have blocked: "\<And>k v n. writeToDatabase env k v (w\<lparr>entropy := n\<rparr>) = (False, w\<lparr>entropy := n\<rparr>)"
    using assms by (intro writeToDatabase_blocked) simp
  have first: "\<And>k v. writeToDatabase env k v w = (False, w)"
    using assms by (rule writeToDatabase_blocked)
  show ?thesis
    by (simp add: write_rows_def Let_def first uuidv4_def blocked)
qed

text \<open>
  C9, as the code has it. \<^verbatim>\<open>writeAccountData\<close> returns true whenever the sealing step
  returns: the encryption is available and the account, after the tokens were fetched
  if they had to be, has a token to seal and log (a truthy \<^verbatim>\<open>idToken\<close> or
  \<^verbatim>\<open>accessToken\<close>, or an \<^verbatim>\<open>apiKey\<close>). Whatever the four row writes did, the round is
  counted and \<^verbatim>\<open>lastWrittenData\<close> is set, also when the store cannot be read or
  written, in which case no row was persisted.
\<close>

theorem writeAccountData_true_when_sealed:
  assumes "ensure_tokens env a (w\<lparr>trace := trace w @ [WriteAccountDataCalled]\<rparr>) = (a', w1)"
    and "encryptionAvailable w"
    and "truthy (idToken a') \<or> truthy (accessToken a') \<or> apiKey a' \<noteq> None"
  shows "\<exists>w'. writeAccountData env a (p, w) =
           ((True, a'),
            p\<lparr>writeCount := Suc (writeCount p),
              lastWrittenData := Some \<lparr>lw_email = email a', lw_name = name a'\<rparr>\<rparr>, w') \<and>
           (files w (dbPath (getWindsurfPaths env)) = None \<or>
            \<not> writable w (dbPath (getWindsurfPaths env)) \<longrightarrow> files w' = files w)"
proof -
  let ?w2 = "snd (createEncryptedSessions env a' w1)"
  have w1: "files w1 = files w" "writable w1 = writable w" "encryptionAvailable w1"
    using ensure_tokens_frame(1,2,3)[of env a "w\<lparr>trace := trace w @ [WriteAccountDataCalled]\<rparr>"] assms(1,2)
    by simp_all
  from assms(3) have "tokenToUse a' \<noteq> None"
    by (cases "idToken a'"; cases "accessToken a'") (auto simp: tokenToUse_def)
  with w1(3) obtain enc where enc: "fst (createEncryptedSessions env a' w1) = Inr enc"
    by (auto simp: createEncryptedSessions_result)
  have run: "writeAccountData env a (p, w) =
           ((True, a'),
            p\<lparr>writeCount := Suc (writeCount p),
              lastWrittenData := Some \<lparr>lw_email = email a', lw_name = name a'\<rparr>\<rparr>,
            write_rows env a' enc ?w2)"
  proof -
    have "createEncryptedSessions env a' w1 = (Inr enc, ?w2)"
      using enc by (simp add: prod_eq_iff)
    then show ?thesis
      using assms(1) by (simp add: writeAccountData_def)
  qed
  have "files (write_rows env a' enc ?w2) = files w"
    if "files w (dbPath (getWindsurfPaths env)) = None \<or> \<not> writable w (dbPath (getWindsurfPaths env))"
    using that w1 write_rows_blocked[of ?w2 env a' enc] by simp
  with run show ?thesis by blast
qed

theorem writeAccountData_true_when_sealed_witness:
  "ensure_tokens demo_env demo_account (unreadable_world\<lparr>trace := trace unreadable_world @ [WriteAccountDataCalled]\<rparr>)
     = (demo_account, unreadable_world\<lparr>trace := [WriteAccountDataCalled]\<rparr>) \<and>
   encryptionAvailable unreadable_world \<and>
   apiKey demo_account \<noteq> None \<and>
   files unreadable_world (dbPath (getWindsurfPaths demo_env)) = None \<and>
   fst (fst (writeAccountData demo_env demo_account (demo_persister, unreadable_world))) \<and>
   writeCount (fst (snd (writeAccountData demo_env demo_account (demo_persister, unreadable_world)))) = 1 \<and>
   lastWrittenData (fst (snd (writeAccountData demo_env demo_account (demo_persister, unreadable_world))))
     = Some \<lparr>lw_email = Some ''b@x.com'', lw_name = Some ''Bob''\<rparr> \<and>
   files (snd (snd (writeAccountData demo_env demo_account (demo_persister, unreadable_world))))
     = files unreadable_world"
proof -
  have a: "ensure_tokens demo_env demo_account (unreadable_world\<lparr>trace := trace unreadable_world @ [WriteAccountDataCalled]\<rparr>)
     = (demo_account, unreadable_world\<lparr>trace := [WriteAccountDataCalled]\<rparr>)"
    by (simp add: ensure_tokens_def demo_account_def unreadable_world_def demo_world_def)
  have b: "encryptionAvailable unreadable_world"
    by (simp add: unreadable_world_def demo_world_def)
  have k: "apiKey demo_account \<noteq> None" by (simp add: demo_account_def)
  then have t: "truthy (idToken demo_account) \<or> truthy (accessToken demo_account) \<or>
                apiKey demo_account \<noteq> None" by simp
  have c: "files unreadable_world (dbPath (getWindsurfPaths demo_env)) = None"
    by (simp add: unreadable_world_def)
  from writeAccountData_true_when_sealed[OF a b t, of demo_persister] c
  obtain w' where "writeAccountData demo_env demo_account (demo_persister, unreadable_world) =
           ((True, demo_account),
            demo_persister\<lparr>writeCount := Suc (writeCount demo_persister),
              lastWrittenData := Some \<lparr>lw_email = email demo_account, lw_name = name demo_account\<rparr>\<rparr>, w')"
    and "files w' = files unreadable_world"
    by blast
  then show ?thesis using a b k c by (simp add: demo_persister_def demo_account_def)
qed

text \<open>
  An account with no \<^verbatim>\<open>idToken\<close>, no \<^verbatim>\<open>accessToken\<close> and no \<^verbatim>\<open>apiKey\<close> on a machine
  whose encryption works: the sessions are encrypted (the call of
  \<^verbatim>\<open>safeStorage.encryptString\<close> returns the sealed bytes), then the log line raises, the
  sealing step fails and \<^verbatim>\<open>writeAccountData\<close> returns false; nothing is counted.
\<close>

theorem writeAccountData_false_after_encryption:
  "encryptionAvailable demo_world \<and>
   encryptString demo_env
     (snd (uuidv4 demo_env (setPath_userData (windsurfPath (getWindsurfPaths demo_env)) demo_world)))
     (JSON_stringify (sessions_json
        (fst (uuidv4 demo_env (setPath_userData (windsurfPath (getWindsurfPaths demo_env)) demo_world)))
        None (name tokenless_account))) = Inr [45, 62] \<and>
   fst (createEncryptedSessions demo_env tokenless_account demo_world) = Inl TypeError \<and>
   fst (writeAccountData demo_env tokenless_account (demo_persister, demo_world))
     = (False, tokenless_account) \<and>
   fst (snd (writeAccountData demo_env tokenless_account (demo_persister, demo_world)))
     = demo_persister"
  by code_simp

subsection \<open>The current account\<close>

text \<open>
  C10, as the code has it. On Windows and macOS \<^verbatim>\<open>getCurrentAccount\<close> never raises: it
  returns the parsed Auth Status document when the row exists and parses, and \<^verbatim>\<open>null\<close>
  when the store cannot be read, the row is absent or the text does not parse; the
  machine is left as it was. On any other platform the path computation, which precedes
  the \<^verbatim>\<open>try\<close>, raises the unsupported-platform error.
\<close>

theorem getCurrentAccount_result:
  "(platform env \<noteq> OtherPlatform \<longrightarrow>
      (\<exists>path. getDBPath env = Inr path \<and>
         getCurrentAccount env w =
           (Inr (case files w path of
                   None \<Rightarrow> JNull
                 | Some db \<Rightarrow>
                     (case select_value db ''windsurfAuthStatus'' of
                        [] \<Rightarrow> JNull
                      | v # rest \<Rightarrow>
                          (case JSON_parse env v of None \<Rightarrow> JNull | Some parsed \<Rightarrow> parsed))), w))) \<and>
   (platform env = OtherPlatform \<longrightarrow> getCurrentAccount env w = (Inl UnsupportedPlatform, w))"
  by (auto simp: getCurrentAccount_def getDBPath_def readFile_def
      split: platform.splits option.splits list.splits)

theorem getCurrentAccount_result_witness:
  "platform demo_env \<noteq> OtherPlatform \<and>
   getCurrentAccount demo_env intruder_world = (Inr intruder_doc, intruder_world) \<and>
   getCurrentAccount demo_env unreadable_world = (Inr JNull, unreadable_world) \<and>
   platform (demo_env\<lparr>platform := OtherPlatform\<rparr>) = OtherPlatform \<and>
   getCurrentAccount (demo_env\<lparr>platform := OtherPlatform\<rparr>) intruder_world
     = (Inl UnsupportedPlatform, intruder_world)"
proof -
  have p: "platform demo_env \<noteq> OtherPlatform"
    by (simp add: demo_env_def)
  have parse: "JSON_parse demo_env (JSON_stringify intruder_doc) = Some intruder_doc"
    by (simp add: demo_env_def demo_parse_def demo_docs_def)
  from getCurrentAccount_result[of demo_env intruder_world] p demo_getDBPath
  have a: "getCurrentAccount demo_env intruder_world = (Inr intruder_doc, intruder_world)"
    by (simp add: intruder_world_def select_value_def parse)
  from getCurrentAccount_result[of demo_env unreadable_world] p demo_getDBPath
  have b: "getCurrentAccount demo_env unreadable_world = (Inr JNull, unreadable_world)"
    by (simp add: unreadable_world_def)
  from getCurrentAccount_result[of "demo_env\<lparr>platform := OtherPlatform\<rparr>" intruder_world]
  have c: "getCurrentAccount (demo_env\<lparr>platform := OtherPlatform\<rparr>) intruder_world
     = (Inl UnsupportedPlatform, intruder_world)"
    by simp
  from p a b c show ?thesis by simp
qed

text \<open>
  On a platform other than Windows and macOS the call raises: the claim that it never
  raises fails there.
\<close>

theorem getCurrentAccount_raises_on_other_platform:
  "fst (getCurrentAccount (demo_env\<lparr>platform := OtherPlatform\<rparr>) demo_world) = Inl UnsupportedPlatform"
  by (simp add: getCurrentAccount_def getDBPath_def)

subsection \<open>Purging stale rows\<close>

lemma fold_delete_key:
  "fold (\<lambda>k t. delete_key t k) ks db = filter (\<lambda>r. fst r \<notin> set ks) db"
proof (induction ks arbitrary: db)
  case Nil
  then show ?case by simp
next
  case (Cons k ks)
  show ?case
  proof -
    have "fold (\<lambda>k t. delete_key t k) (k # ks) db =
            filter (\<lambda>r. fst r \<notin> set ks) (delete_key db k)"
      by (simp add: Cons.IH)
    also have "\<dots> = filter (\<lambda>r. fst r \<notin> set (k # ks)) db"
      by (simp add: delete_key_def conj_commute)
    finally show ?thesis .
  qed
qed

lemma select_keys_like_after_purge:
  "select_keys_like (fold (\<lambda>k t. delete_key t k) (select_keys_like db p) db) p = []"
  by (auto simp: fold_delete_key select_keys_like_def filter_empty_conv)

text \<open>
  C7. The purge of the keys matching \<^verbatim>\<open>windsurf_auth-%\<close> is idempotent: after a run
  that completed, a second run finds no matching key, deletes nothing and returns the
  machine exactly as the first run left it; no key of the store matches the pattern.
\<close>

theorem purge_idempotent:
  assumes "purge_old_keys env w = Inr (n, w')"
  shows "purge_old_keys env w' = Inr (0, w') \<and>
         (\<exists>path db. getDBPath env = Inr path \<and> files w' path = Some db \<and>
                    select_keys_like db stale_pattern = [])"
proof -
  from assms obtain path where path: "getDBPath env = Inr path"
    by (auto simp: purge_old_keys_def split: sum.splits)
  from assms path obtain db where db: "files w path = Some db"
    by (auto simp: purge_old_keys_def readFile_def split: sum.splits option.splits)
  let ?old = "select_keys_like db stale_pattern"
  show ?thesis
  proof (cases "?old = []")
    case True
    with assms path db have "w' = w"
      by (simp add: purge_old_keys_def readFile_def Let_def)
    with True path db show ?thesis
      by (simp add: purge_old_keys_def readFile_def Let_def)
  next
    case False
    with assms path db have w': "files w' path = Some (fold (\<lambda>k t. delete_key t k) ?old db)"
      by (auto simp: purge_old_keys_def readFile_def Let_def writeFile_def split: if_splits)
    with path show ?thesis
      by (simp add: purge_old_keys_def readFile_def Let_def select_keys_like_after_purge)
  qed
qed

theorem purge_idempotent_witness:
  "purge_old_keys demo_env stale_world =
     Inr (2, stale_world\<lparr>files := (files stale_world)(demo_db := Some [(''windsurfAuthStatus'', ''kept'')]),
                        trace := [FileWritten demo_db]\<rparr>) \<and>
   purge_old_keys demo_env
     (stale_world\<lparr>files := (files stale_world)(demo_db := Some [(''windsurfAuthStatus'', ''kept'')]),
                  trace := [FileWritten demo_db]\<rparr>) =
     Inr (0, stale_world\<lparr>files := (files stale_world)(demo_db := Some [(''windsurfAuthStatus'', ''kept'')]),
                        trace := [FileWritten demo_db]\<rparr>)"
proof -
  have first: "purge_old_keys demo_env stale_world =
     Inr (2, stale_world\<lparr>files := (files stale_world)(demo_db := Some [(''windsurfAuthStatus'', ''kept'')]),
                        trace := [FileWritten demo_db]\<rparr>)"
    by (simp add: purge_old_keys_def demo_getDBPath readFile_def writeFile_def stale_world_def
        demo_world_def select_keys_like_def stale_pattern_def delete_key_def ascii_lower_def Let_def)
  from purge_idempotent[OF first] first show ?thesis by simp
qed

subsection \<open>The forwarding relay\<close>

text \<open>
  C8, as the code has it. For a POST request the three fields are the query parameter
  \<^verbatim>\<open>key\<close> and the form fields \<^verbatim>\<open>grant_type\<close> and \<^verbatim>\<open>refresh_token\<close> when the content
  type names form encoding, and the members \<^verbatim>\<open>api_key\<close>, \<^verbatim>\<open>grant_type\<close> and
  \<^verbatim>\<open>refresh_token\<close> of the JSON body otherwise. When the request can be read and a
  field is missing (absent, \<^verbatim>\<open>null\<close>, empty, or another value that \<^verbatim>\<open>!x\<close> accepts) the
  answer has status 400 and the body \<^verbatim>\<open>{error: message}\<close>, and nothing is sent
  upstream. When the fields are there, the upstream answers, its body reads as JSON and
  its status can carry a body, the answer has the upstream's status and that document,
  serialised again, as body. When reading the request, the upstream call, reading the
  upstream's body as JSON or building the answer raises, the answer has status 500 and
  the body \<^verbatim>\<open>{error: message, stack: stack}\<close> (the member \<^verbatim>\<open>stack\<close> is left out only when
  the exception has none). Every answer carries the permissive CORS header.
\<close>

theorem handleRequest_post:
  assumes "req_method request = ''POST''"
  shows "(js_includes (contentType request) ''application/x-www-form-urlencoded'' \<longrightarrow>
            request_fields wenv request =
              Inr (params_get (req_query request) ''key'',
                   params_get (URLSearchParams wenv (req_body request)) ''grant_type'',
                   params_get (URLSearchParams wenv (req_body request)) ''refresh_token''))
       \<and> (\<forall>body. \<not> js_includes (contentType request) ''application/x-www-form-urlencoded'' \<and>
             body_json wenv (req_body request) = Inr body \<and> body \<noteq> JNull \<longrightarrow>
             request_fields wenv request =
               Inr (member body ''api_key'', member body ''grant_type'', member body ''refresh_token''))
       \<and> (\<forall>ex. \<not> js_includes (contentType request) ''application/x-www-form-urlencoded'' \<and>
             (body_json wenv (req_body request) = Inl ex \<or>
              body_json wenv (req_body request) = Inr JNull \<and> ex = null_member_error wenv) \<longrightarrow>
             request_fields wenv request = Inl ex)
       \<and> (\<forall>x. falsy x \<longleftrightarrow> x = None \<or> x = Some JNull \<or> x = Some (JBool False) \<or>
                            x = Some (JNum 0) \<or> x = Some (JStr []))
       \<and> (\<forall>k g r. request_fields wenv request = Inr (k, g, r) \<and> falsy k \<longrightarrow>
            handleRequest wenv request =
               (\<lparr>res_status = 400,
                 res_headers = [(''Content-Type'', ''application/json''), (''Access-Control-Allow-Origin'', ''*'')],
                 res_body = Some (JSON_stringify (JObj [(''error'', JStr ''Missing API key'')]))\<rparr>, []))
       \<and> (\<forall>k g r. request_fields wenv request = Inr (k, g, r) \<and> \<not> falsy k \<and> (falsy g \<or> falsy r) \<longrightarrow>
            handleRequest wenv request =
               (\<lparr>res_status = 400,
                 res_headers = [(''Content-Type'', ''application/json''), (''Access-Control-Allow-Origin'', ''*'')],
                 res_body = Some (JSON_stringify
                   (JObj [(''error'', JStr ''Missing grant_type or refresh_token'')]))\<rparr>, []))
       \<and> (\<forall>k g r up data.
             request_fields wenv request = Inr (k, g, r) \<and> \<not> falsy k \<and> \<not> falsy g \<and> \<not> falsy r \<and>
             fetch wenv (the_field k, the_field g, the_field r) = Inr up \<and>
             body_json wenv (up_body up) = Inr data \<and> body_status (up_status up) \<longrightarrow>
             handleRequest wenv request =
               (\<lparr>res_status = up_status up, res_headers = forwarded_headers,
                 res_body = Some (JSON_stringify data)\<rparr>,
                [(the_field k, the_field g, the_field r)]))
       \<and> (\<forall>ex. request_fields wenv request = Inl ex \<or>
              (\<exists>k g r. request_fields wenv request = Inr (k, g, r) \<and>
                 \<not> falsy k \<and> \<not> falsy g \<and> \<not> falsy r \<and>
                 (fetch wenv (the_field k, the_field g, the_field r) = Inl ex \<or>
                  (\<exists>up. fetch wenv (the_field k, the_field g, the_field r) = Inr up \<and>
                     (body_json wenv (up_body up) = Inl ex \<or>
                      (\<exists>data. body_json wenv (up_body up) = Inr data \<and>
                         \<not> body_status (up_status up) \<and> ex = status_error wenv))))) \<longrightarrow>
             fst (handleRequest wenv request) =
               \<lparr>res_status = 500,
                res_headers = [(''Content-Type'', ''application/json''), (''Access-Control-Allow-Origin'', ''*'')],
                res_body = Some (JSON_stringify (JObj (object_of
                   [(''error'', Some (JStr (message ex))), (''stack'', str (stack ex))])))\<rparr>)
       \<and> cors (fst (handleRequest wenv request))"
proof (intro conjI allI impI)
  assume "js_includes (contentType request) ''application/x-www-form-urlencoded''"
  then show "request_fields wenv request =
              Inr (params_get (req_query request) ''key'',
                   params_get (URLSearchParams wenv (req_body request)) ''grant_type'',
                   params_get (URLSearchParams wenv (req_body request)) ''refresh_token'')"
    by (simp add: request_fields_def contentType_def Let_def)
next
  fix body
  assume "\<not> js_includes (contentType request) ''application/x-www-form-urlencoded'' \<and>
             body_json wenv (req_body request) = Inr body \<and> body \<noteq> JNull"
  then show "request_fields wenv request =
               Inr (member body ''api_key'', member body ''grant_type'', member body ''refresh_token'')"
    by (simp add: request_fields_def contentType_def)
next
  fix ex
  assume "\<not> js_includes (contentType request) ''application/x-www-form-urlencoded'' \<and>
             (body_json wenv (req_body request) = Inl ex \<or>
              body_json wenv (req_body request) = Inr JNull \<and> ex = null_member_error wenv)"
  then show "request_fields wenv request = Inl ex"
    by (auto simp: request_fields_def contentType_def)
next
  fix x
  show "falsy x \<longleftrightarrow> x = None \<or> x = Some JNull \<or> x = Some (JBool False) \<or>
                            x = Some (JNum 0) \<or> x = Some (JStr [])"
  proof (cases x)
    case None
    then show ?thesis by (simp add: falsy_def)
  next
    case (Some v)
    then show ?thesis by (cases v) (simp_all add: falsy_def)
  qed
next
  fix k g r
  assume "request_fields wenv request = Inr (k, g, r) \<and> falsy k"
  then show "handleRequest wenv request =
               (\<lparr>res_status = 400,
                 res_headers = [(''Content-Type'', ''application/json''), (''Access-Control-Allow-Origin'', ''*'')],
                 res_body = Some (JSON_stringify (JObj [(''error'', JStr ''Missing API key'')]))\<rparr>, [])"
    using assms by (simp add: handleRequest_def bad_request_def json_error_response_def)
next
  fix k g r
  assume "request_fields wenv request = Inr (k, g, r) \<and> \<not> falsy k \<and> (falsy g \<or> falsy r)"
  then show "handleRequest wenv request =
               (\<lparr>res_status = 400,
                 res_headers = [(''Content-Type'', ''application/json''), (''Access-Control-Allow-Origin'', ''*'')],
                 res_body = Some (JSON_stringify
                   (JObj [(''error'', JStr ''Missing grant_type or refresh_token'')]))\<rparr>, [])"
    using assms by (auto simp: handleRequest_def bad_request_def json_error_response_def)
next
  fix k g r up data
  assume "request_fields wenv request = Inr (k, g, r) \<and> \<not> falsy k \<and> \<not> falsy g \<and> \<not> falsy r \<and>
             fetch wenv (the_field k, the_field g, the_field r) = Inr up \<and>
             body_json wenv (up_body up) = Inr data \<and> body_status (up_status up)"
  then show "handleRequest wenv request =
               (\<lparr>res_status = up_status up, res_headers = forwarded_headers,
                 res_body = Some (JSON_stringify data)\<rparr>,
                [(the_field k, the_field g, the_field r)])"
    using assms by (simp add: handleRequest_def Let_def)
next
  fix ex
  assume "request_fields wenv request = Inl ex \<or>
              (\<exists>k g r. request_fields wenv request = Inr (k, g, r) \<and>
                 \<not> falsy k \<and> \<not> falsy g \<and> \<not> falsy r \<and>
                 (fetch wenv (the_field k, the_field g, the_field r) = Inl ex \<or>
                  (\<exists>up. fetch wenv (the_field k, the_field g, the_field r) = Inr up \<and>
                     (body_json wenv (up_body up) = Inl ex \<or>
                      (\<exists>data. body_json wenv (up_body up) = Inr data \<and>
                         \<not> body_status (up_status up) \<and> ex = status_error wenv)))))"
  then show "fst (handleRequest wenv request) =
               \<lparr>res_status = 500,
                res_headers = [(''Content-Type'', ''application/json''), (''Access-Control-Allow-Origin'', ''*'')],
                res_body = Some (JSON_stringify (JObj (object_of
                   [(''error'', Some (JStr (message ex))), (''stack'', str (stack ex))])))\<rparr>"
    using assms
    by (auto simp: handleRequest_def Let_def internal_error_def json_error_response_def)
next
  show "cors (fst (handleRequest wenv request))"
    using assms
    by (auto simp: handleRequest_def Let_def internal_error_def json_error_response_def
        bad_request_def forwarded_headers_def cors_def split: sum.splits prod.splits)
qed

theorem handleRequest_post_witness:
  \<open>req_method form_request = ''POST'' \<and> req_method json_request = ''POST'' \<and>
   req_method empty_request = ''POST'' \<and> req_method bare_request = ''POST'' \<and>
   req_method broken_request = ''POST'' \<and>
   handleRequest demo_wenv form_request =
     (\<lparr>res_status = 200, res_headers = forwarded_headers, res_body = Some ''{"id_token":"t"}''\<rparr>,
      [(JStr ''K'', JStr ''refresh_token'', JStr ''r1'')]) \<and>
   handleRequest demo_wenv json_request =
     (\<lparr>res_status = 200, res_headers = forwarded_headers, res_body = Some ''{"id_token":"t"}''\<rparr>,
      [(JStr ''K2'', JStr ''refresh_token'', JStr ''r2'')]) \<and>
   handleRequest demo_wenv empty_request =
     (\<lparr>res_status = 400,
       res_headers = [(''Content-Type'', ''application/json''), (''Access-Control-Allow-Origin'', ''*'')],
       res_body = Some ''{"error":"Missing API key"}''\<rparr>, []) \<and>
   handleRequest demo_wenv bare_request =
     (\<lparr>res_status = 400,
       res_headers = [(''Content-Type'', ''application/json''), (''Access-Control-Allow-Origin'', ''*'')],
       res_body = Some ''{"error":"Missing grant_type or refresh_token"}''\<rparr>, []) \<and>
   fst (handleRequest demo_wenv broken_request) =
     \<lparr>res_status = 500,
      res_headers = [(''Content-Type'', ''application/json''), (''Access-Control-Allow-Origin'', ''*'')],
      res_body = Some ''{"error":"Unexpected token"}''\<rparr> \<and>
   cors (fst (handleRequest demo_wenv broken_request))\<close>
proof -
  have m: "req_method form_request = ''POST''" "req_method json_request = ''POST''"
    "req_method empty_request = ''POST''" "req_method bare_request = ''POST''"
    "req_method broken_request = ''POST''"
    by (simp_all add: form_request_def json_request_def empty_request_def bare_request_def
        broken_request_def)
  have form: "js_includes (contentType form_request) ''application/x-www-form-urlencoded''"
    "js_includes (contentType bare_request) ''application/x-www-form-urlencoded''"
    by (simp_all add: contentType_def form_request_def bare_request_def)
  have other: "\<not> js_includes (contentType json_request) ''application/x-www-form-urlencoded''"
    "\<not> js_includes (contentType empty_request) ''application/x-www-form-urlencoded''"
    "\<not> js_includes (contentType broken_request) ''application/x-www-form-urlencoded''"
    by (simp_all add: contentType_def json_request_def empty_request_def broken_request_def)
  let ?up = \<open>\<lparr>up_status = 200, up_body = ''{"id_token":"t"}''\<rparr>\<close>
  let ?doc = "JObj [(''id_token'', JStr ''t'')]"
  let ?ex = "\<lparr>message = ''Unexpected token'', stack = None\<rparr>"
  have up: "fetch demo_wenv sent = Inr ?up" for sent
    by (simp add: demo_wenv_def)
  have doc: "body_json demo_wenv (up_body ?up) = Inr ?doc"
    by (simp add: demo_wenv_def)
  have st: "body_status (up_status ?up)"
    by (simp add: body_status_def)
  have truthy: "\<not> falsy (Some (JStr ''K''))" "\<not> falsy (Some (JStr ''refresh_token''))"
    "\<not> falsy (Some (JStr ''r1''))" "\<not> falsy (Some (JStr ''K2''))" "\<not> falsy (Some (JStr ''r2''))"
    "falsy None" "falsy (Some JNull)"
    by (simp_all add: handleRequest_post[OF m(1), of demo_wenv, THEN conjunct2, THEN conjunct2, THEN conjunct2, THEN conjunct1, rule_format])

  note F = handleRequest_post[OF m(1), of demo_wenv]
  from F[THEN conjunct1, THEN mp, OF form(1)]
  have f1: "request_fields demo_wenv form_request =
              Inr (Some (JStr ''K''), Some (JStr ''refresh_token''), Some (JStr ''r1''))"
    by (simp add: demo_wenv_def form_request_def params_get_def)
  from F[THEN conjunct2, THEN conjunct2, THEN conjunct2, THEN conjunct2, THEN conjunct2, THEN conjunct2, THEN conjunct1, rule_format, of "Some (JStr ''K'')" "Some (JStr ''refresh_token'')"
      "Some (JStr ''r1'')" ?up ?doc, OF conjI[OF f1 conjI[OF truthy(1) conjI[OF truthy(2)
      conjI[OF truthy(3) conjI[OF _ conjI[OF doc st]]]]]]] up
  have a: \<open>handleRequest demo_wenv form_request =
     (\<lparr>res_status = 200, res_headers = forwarded_headers, res_body = Some ''{"id_token":"t"}''\<rparr>,
      [(JStr ''K'', JStr ''refresh_token'', JStr ''r1'')])\<close>
    by (simp add: quote_def str_def)

  note J = handleRequest_post[OF m(2), of demo_wenv]
  have jb: "body_json demo_wenv (req_body json_request) =
              Inr (JObj [(''grant_type'', JStr ''refresh_token''), (''refresh_token'', JStr ''r2''),
                         (''api_key'', JStr ''K2'')])"
    by (simp add: demo_wenv_def json_request_def)
  from J[THEN conjunct2, THEN conjunct1, rule_format, OF conjI[OF other(1) conjI[OF jb]]]
  have j1: "request_fields demo_wenv json_request =
              Inr (Some (JStr ''K2''), Some (JStr ''refresh_token''), Some (JStr ''r2''))"
    by simp
  from J[THEN conjunct2, THEN conjunct2, THEN conjunct2, THEN conjunct2, THEN conjunct2, THEN conjunct2, THEN conjunct1, rule_format, of "Some (JStr ''K2'')" "Some (JStr ''refresh_token'')"
      "Some (JStr ''r2'')" ?up ?doc, OF conjI[OF j1 conjI[OF truthy(4) conjI[OF truthy(2)
      conjI[OF truthy(5) conjI[OF _ conjI[OF doc st]]]]]]] up
  have b: \<open>handleRequest demo_wenv json_request =
     (\<lparr>res_status = 200, res_headers = forwarded_headers, res_body = Some ''{"id_token":"t"}''\<rparr>,
      [(JStr ''K2'', JStr ''refresh_token'', JStr ''r2'')])\<close>
    by (simp add: quote_def str_def)

  note E = handleRequest_post[OF m(3), of demo_wenv]
  have eb: "body_json demo_wenv (req_body empty_request) = Inr (JObj [])"
    by (simp add: demo_wenv_def empty_request_def)
  from E[THEN conjunct2, THEN conjunct1, rule_format, OF conjI[OF other(2) conjI[OF eb]]]
  have e1: "request_fields demo_wenv empty_request = Inr (None, None, None)"
    by simp
  from E[THEN conjunct2, THEN conjunct2, THEN conjunct2, THEN conjunct2, THEN conjunct1, rule_format, of None None None, OF conjI[OF e1 truthy(6)]]
  have c: \<open>handleRequest demo_wenv empty_request =
     (\<lparr>res_status = 400,
       res_headers = [(''Content-Type'', ''application/json''), (''Access-Control-Allow-Origin'', ''*'')],
       res_body = Some ''{"error":"Missing API key"}''\<rparr>, [])\<close>
    by (simp add: quote_def str_def)

  note B = handleRequest_post[OF m(4), of demo_wenv]
  from B[THEN conjunct1, THEN mp, OF form(2)]
  have b1: "request_fields demo_wenv bare_request = Inr (Some (JStr ''K''), Some JNull, Some JNull)"
    by (simp add: demo_wenv_def bare_request_def params_get_def)
  from B[THEN conjunct2, THEN conjunct2, THEN conjunct2, THEN conjunct2, THEN conjunct2, THEN conjunct1, rule_format, of "Some (JStr ''K'')" "Some JNull" "Some JNull",
      OF conjI[OF b1 conjI[OF truthy(1) disjI1[OF truthy(7)]]]]
  have d: \<open>handleRequest demo_wenv bare_request =
     (\<lparr>res_status = 400,
       res_headers = [(''Content-Type'', ''application/json''), (''Access-Control-Allow-Origin'', ''*'')],
       res_body = Some ''{"error":"Missing grant_type or refresh_token"}''\<rparr>, [])\<close>
    by (simp add: quote_def str_def)

  note K = handleRequest_post[OF m(5), of demo_wenv]
  have kb: "body_json demo_wenv (req_body broken_request) = Inl ?ex"
    by (simp add: demo_wenv_def broken_request_def)
  from K[THEN conjunct2, THEN conjunct2, THEN conjunct1, rule_format, of ?ex, OF conjI[OF other(3) disjI1[OF kb]]]
  have k1: "request_fields demo_wenv broken_request = Inl ?ex" .
  from K[THEN conjunct2, THEN conjunct2, THEN conjunct2, THEN conjunct2, THEN conjunct2, THEN conjunct2, THEN conjunct2, THEN conjunct1, rule_format, of ?ex, OF disjI1[OF k1]]
  have e: \<open>fst (handleRequest demo_wenv broken_request) =
     \<lparr>res_status = 500,
      res_headers = [(''Content-Type'', ''application/json''), (''Access-Control-Allow-Origin'', ''*'')],
      res_body = Some ''{"error":"Unexpected token"}''\<rparr>\<close>
    by (simp add: quote_def str_def)
  from K[THEN conjunct2, THEN conjunct2, THEN conjunct2, THEN conjunct2, THEN conjunct2, THEN conjunct2, THEN conjunct2, THEN conjunct2] have f: "cors (fst (handleRequest demo_wenv broken_request))" .
  from m a b c d e f show ?thesis by (intro conjI)
qed

text \<open>
  A POST request with all three fields whose upstream answers 502 with a body that is
  not JSON: the relay answers 500, not 502, and the body of its answer has the member
  \<^verbatim>\<open>stack\<close> beside \<^verbatim>\<open>error\<close>.
\<close>

theorem handleRequest_upstream_not_json:
  \<open>req_method form_request = ''POST'' \<and>
   request_fields flaky_wenv form_request =
     Inr (Some (JStr ''K''), Some (JStr ''refresh_token''), Some (JStr ''r1'')) \<and>
   fetch flaky_wenv (JStr ''K'', JStr ''refresh_token'', JStr ''r1'') =
     Inr \<lparr>up_status = 502, up_body = ''Bad Gateway''\<rparr> \<and>
   handleRequest flaky_wenv form_request =
     (\<lparr>res_status = 500,
       res_headers = [(''Content-Type'', ''application/json''), (''Access-Control-Allow-Origin'', ''*'')],
       res_body = Some ''{"error":"Unexpected token","stack":"SyntaxError at json"}''\<rparr>,
      [(JStr ''K'', JStr ''refresh_token'', JStr ''r1'')])\<close>
  by code_simp

subsection \<open>Cached credentials\<close>

lemma select_value_insert_or_replace:
  "select_value (insert_or_replace t k v) k' = (if k' = k then [v] else select_value t k')"
proof -
  have "k' \<noteq> k \<Longrightarrow> filter (\<lambda>x. fst x \<noteq> k \<and> fst x = k') t = filter (\<lambda>r. fst r = k') t"
    by (rule filter_cong) auto
  then show ?thesis
    by (auto simp: select_value_def insert_or_replace_def filter_empty_conv)
qed

lemma encryptSessions_world: "snd (encryptSessions env d w) = w"
  by (simp add: encryptSessions_def setPath_userData_def Let_def split: sum.splits)

lemma writeToDB_Inr:
  assumes "writeToDB env k v w = Inr w'"
  shows "\<exists>path db. getDBPath env = Inr path \<and> files w path = Some db \<and>
           w' = w\<lparr>files := (files w)(path := Some (insert_or_replace db k (marshal v))),
                  trace := trace w @ [FileWritten path]\<rparr>"
  using assms
  by (cases v) (auto simp: writeToDB_def readFile_def writeFile_def
      split: sum.splits option.splits if_splits)

lemma encryptSessions_same: "encryptSessions env d w = (r, w') \<Longrightarrow> w' = w"
  using encryptSessions_world[of env d w] by simp

lemma encryptSessions_Inr:
  assumes "encryptSessions env d w = (Inr enc, w')"
  shows "\<exists>dir. getUserDataPath env = Inr dir \<and> enc = cipher env dir (JSON_stringify d)"
  using assms
  by (auto simp: encryptSessions_def Let_def encryptString_def setPath_userData_def
      split: sum.splits if_splits)

lemma switchAccount_write_store:
  assumes "switchAccount_write env a (key, nm, url) w = (Inr (), w')"
  shows "\<exists>path db dir. getDBPath env = Inr path \<and> files w' path = Some db \<and>
           getUserDataPath env = Inr dir \<and>
           select_value db sessionsKey =
             [JSON_stringify (buffer_json (cipher env dir
                (JSON_stringify (sessions_json (uuid_source env (entropy w)) key nm))))] \<and>
           select_value db ''windsurfAuthStatus'' =
             [JSON_stringify (authStatus_json nm key (email a) (uuid_source env (Suc (entropy w))))] \<and>
           select_value db ''codeium.windsurf'' =
             [JSON_stringify (codeiumConfig_json (uuid_source env (Suc (Suc (entropy w)))) url)] \<and>
           select_value db ''codeium.windsurf-windsurf_auth'' = [marshal (string_value nm)]"
  using assms
  apply (clarsimp simp: switchAccount_write_def Let_def uuidv4_def
        split: prod.splits sum.splits option.splits if_splits)
  apply (frule encryptSessions_Inr)
  apply (drule encryptSessions_same)
  apply (drule writeToDB_Inr)+
  apply (clarsimp simp: select_value_insert_or_replace sessionsKey_def)
  done

text \<open>
  C6. For an account that carries \<^verbatim>\<open>apiKey\<close>, \<^verbatim>\<open>name\<close> and \<^verbatim>\<open>apiServerUrl\<close> (all
  non-empty), the credential stage returns exactly these three values and leaves the
  machine as it is: no request is sent to the relay or to the registration endpoint. When
  the write stage then completes, the rows of the store hold these values unmodified:
  the sealed sessions built from the key and the name, the Auth Status with name, key and
  email, the configuration with the server URL, and the name.
\<close>

theorem cached_credentials_reused:
  assumes "truthy (apiKey a)" and "truthy (name a)" and "truthy (apiServerUrl a)"
  shows "switchAccount_credentials env a w = (Inr (apiKey a, name a, apiServerUrl a), w) \<and>
         (\<forall>w'. switchAccount_write env a (apiKey a, name a, apiServerUrl a) w = (Inr (), w') \<longrightarrow>
            (\<exists>path db dir n u. getDBPath env = Inr path \<and> files w' path = Some db \<and>
               getUserDataPath env = Inr dir \<and> name a = Some n \<and> apiServerUrl a = Some u \<and>
               select_value db sessionsKey =
                 [JSON_stringify (buffer_json (cipher env dir
                    (JSON_stringify (sessions_json (uuid_source env (entropy w)) (apiKey a) (name a)))))] \<and>
               select_value db ''windsurfAuthStatus'' =
                 [JSON_stringify (authStatus_json (name a) (apiKey a) (email a)
                    (uuid_source env (Suc (entropy w))))] \<and>
               select_value db ''codeium.windsurf'' =
                 [JSON_stringify (JObj [(''codeium.installationId'', JStr (uuid_source env (Suc (Suc (entropy w))))),
                                        (''apiServerUrl'', JStr u),
                                        (''codeium.hasOneTimeUpdatedUnspecifiedMode'', JBool True)])] \<and>
               select_value db ''codeium.windsurf-windsurf_auth'' = [n]))"
proof -
  from assms(2) obtain n where n: "name a = Some n" by (cases "name a") simp_all
  from assms(3) obtain u where u: "apiServerUrl a = Some u" "u \<noteq> []"
    by (cases "apiServerUrl a") simp_all
  have first: "switchAccount_credentials env a w = (Inr (apiKey a, name a, apiServerUrl a), w)"
    using assms by (simp add: switchAccount_credentials_def)
  have second: "\<exists>path db dir n u. getDBPath env = Inr path \<and> files w' path = Some db \<and>
               getUserDataPath env = Inr dir \<and> name a = Some n \<and> apiServerUrl a = Some u \<and>
               select_value db sessionsKey =
                 [JSON_stringify (buffer_json (cipher env dir
                    (JSON_stringify (sessions_json (uuid_source env (entropy w)) (apiKey a) (name a)))))] \<and>
               select_value db ''windsurfAuthStatus'' =
                 [JSON_stringify (authStatus_json (name a) (apiKey a) (email a)
                    (uuid_source env (Suc (entropy w))))] \<and>
               select_value db ''codeium.windsurf'' =
                 [JSON_stringify (JObj [(''codeium.installationId'', JStr (uuid_source env (Suc (Suc (entropy w))))),
                                        (''apiServerUrl'', JStr u),
                                        (''codeium.hasOneTimeUpdatedUnspecifiedMode'', JBool True)])] \<and>
               select_value db ''codeium.windsurf-windsurf_auth'' = [n]"
    if "switchAccount_write env a (apiKey a, name a, apiServerUrl a) w = (Inr (), w')" for w'
    using switchAccount_write_store[OF that] n u
    by (auto simp: codeiumConfig_json_def string_value_def)
  from first second show ?thesis by blast
qed

theorem cached_credentials_reused_witness:
  "truthy (apiKey demo_account) \<and> truthy (name demo_account) \<and> truthy (apiServerUrl demo_account) \<and>
   switchAccount_credentials demo_env demo_account demo_world =
     (Inr (Some ''sk-b'', Some ''Bob'', Some ''https://s.example''), demo_world) \<and>
   fst (switchAccount_write demo_env demo_account
          (apiKey demo_account, name demo_account, apiServerUrl demo_account) demo_world) = Inr () \<and>
   files (snd (switchAccount_write demo_env demo_account
          (apiKey demo_account, name demo_account, apiServerUrl demo_account) demo_world)) demo_db
     = Some demo_rows"
proof -
  have t: "truthy (apiKey demo_account)" "truthy (name demo_account)" "truthy (apiServerUrl demo_account)"
    by (simp_all add: demo_account_def)
  have a: "switchAccount_credentials demo_env demo_account demo_world =
     (Inr (Some ''sk-b'', Some ''Bob'', Some ''https://s.example''), demo_world)"
    using cached_credentials_reused[OF t, of demo_env demo_world] by (simp add: demo_account_def)
  have b: "fst (switchAccount_write demo_env demo_account
          (apiKey demo_account, name demo_account, apiServerUrl demo_account) demo_world) = Inr ()"
    by code_simp
  have c: "files (snd (switchAccount_write demo_env demo_account
          (apiKey demo_account, name demo_account, apiServerUrl demo_account) demo_world)) demo_db
     = Some demo_rows"
    by code_simp
  from t a b c show ?thesis by blast
qed

subsection \<open>The monitor against an external writer\<close>

lemma map_of_update_timer:
  "map_of (timers (update_timer tid t w)) tid' =
     (if tid' = tid \<and> map_of (timers w) tid \<noteq> None then Some t else map_of (timers w) tid')"
proof -
  have "map_of (map (\<lambda>x. if fst x = tid then (tid, t) else x) ts) tid' =
          (if tid' = tid \<and> map_of ts tid \<noteq> None then Some t else map_of ts tid')" for ts
    by (induction ts) auto
  from this[of "timers w"] show ?thesis by (simp add: update_timer_def)
qed

lemma map_of_clearInterval:
  "map_of (timers (clearInterval tid w)) tid' = (if tid' = tid then None else map_of (timers w) tid')"
proof -
  have "map_of (filter (\<lambda>x. fst x \<noteq> tid) ts) tid' = (if tid' = tid then None else map_of ts tid')" for ts
    by (induction ts) auto
  from this[of "timers w"] show ?thesis by (simp add: clearInterval_def)
qed

lemma update_timer_frame [simp]:
  "files (update_timer tid t w) = files w"
  "writable (update_timer tid t w) = writable w"
  "encryptionAvailable (update_timer tid t w) = encryptionAvailable w"
  "attempts (update_timer tid t w) = attempts w"
  "length (timers (update_timer tid t w)) = length (timers w)"
  by (simp_all add: update_timer_def attempts_def)

lemma clearInterval_frame [simp]:
  "files (clearInterval tid w) = files w"
  "writable (clearInterval tid w) = writable w"
  "encryptionAvailable (clearInterval tid w) = encryptionAvailable w"
  "attempts (clearInterval tid w) = attempts w"
  by (simp_all add: clearInterval_def attempts_def)

lemma tick_inactive: "map_of (timers w) tid = None \<Longrightarrow> tick env tid (p, w) = (p, w)"
  by (simp add: tick_def)

lemma tick_rewrite_ok:
  assumes "map_of (timers w) tid = Some t" and "drifted env p w (t_account t)"
    and "writeAccountData env (t_account t) (p, w) = ((True, a'), p1, w1)"
  shows "tick env tid (p, w) = (p1, update_timer tid (t\<lparr>t_account := a', retryCount := 0\<rparr>) w1)"
  using assms by (simp add: tick_def)

lemma tick_rewrite_failed:
  assumes "map_of (timers w) tid = Some t" and "drifted env p w (t_account t)"
    and "writeAccountData env (t_account t) (p, w) = ((False, a'), p1, w1)"
  shows "tick env tid (p, w) =
           (if Suc (retryCount t) \<ge> t_maxRetries t
            then stopMonitoring (p1, update_timer tid (t\<lparr>t_account := a', retryCount := Suc (retryCount t)\<rparr>) w1)
            else (p1, update_timer tid (t\<lparr>t_account := a', retryCount := Suc (retryCount t)\<rparr>) w1))"
  using assms by (simp add: tick_def Let_def)

lemma tick_no_drift:
  assumes "map_of (timers w) tid = Some t" and "\<not> drifted env p w (t_account t)"
  shows "tick env tid (p, w) = (p, update_timer tid (t\<lparr>retryCount := 0\<rparr>) w)"
  using assms by (simp add: tick_def)

lemma drifted_different_email:
  assumes "files w (dbPath (getWindsurfPaths env)) = Some db"
    and "select_value db ''windsurfAuthStatus'' = v # rest"
    and "JSON_parse env v = Some (JObj kvs)"
    and "\<not> strict_eq (map_of kvs ''email'') (email acc)"
  shows "drifted env p w acc"
  using assms
  by (simp add: drifted_def verifyLoginStatus_def readFile_def Let_def split: option.splits)

lemma drifted_absent:
  assumes "files w (dbPath (getWindsurfPaths env)) = Some db"
    and "select_value db ''windsurfAuthStatus'' = []"
  shows "drifted env p w acc"
  using assms
  by (simp add: drifted_def verifyLoginStatus_def readFile_def Let_def)


lemma writeToDatabase_readable:
  "files w path \<noteq> None \<Longrightarrow> files (snd (writeToDatabase env k v w)) path \<noteq> None"
  by (simp add: writeToDatabase_def writeFile_def split: sum.splits js_value.splits)

lemma writeToDatabase_other_key:
  assumes "files w (dbPath (getWindsurfPaths env)) = Some db" and "k' \<noteq> k"
  shows "\<exists>db'. files (snd (writeToDatabase env k v w)) (dbPath (getWindsurfPaths env)) = Some db' \<and>
               select_value db' k' = select_value db k'"
  using assms
  by (auto simp: writeToDatabase_def writeFile_def readFile_def select_value_insert_or_replace
      split: sum.splits js_value.splits)

lemma writeToDatabase_Object:
  assumes "files w (dbPath (getWindsurfPaths env)) = Some db"
    and "writable w (dbPath (getWindsurfPaths env))"
  shows "\<exists>db'. files (snd (writeToDatabase env k (Object j) w)) (dbPath (getWindsurfPaths env)) = Some db' \<and>
               select_value db' k = [JSON_stringify j]"
  using assms
  by (simp add: writeToDatabase_def writeFile_def readFile_def select_value_insert_or_replace)

lemma write_rows_authStatus:
  assumes "files w (dbPath (getWindsurfPaths env)) = Some db"
    and "writable w (dbPath (getWindsurfPaths env))"
  shows "\<exists>db' teamId. files (write_rows env a enc w) (dbPath (getWindsurfPaths env)) = Some db' \<and>
           select_value db' ''windsurfAuthStatus'' =
             [JSON_stringify (authStatus_json (name a) (apiKey a) (email a) teamId)]"
proof -
  let ?path = "dbPath (getWindsurfPaths env)"
  let ?w1 = "snd (writeToDatabase env sessionsKey (Buffer enc) w)"
  let ?w2 = "snd (uuidv4 env ?w1)"
  let ?teamId = "fst (uuidv4 env ?w1)"
  let ?doc = "authStatus_json (name a) (apiKey a) (email a) ?teamId"
  let ?w3 = "snd (writeToDatabase env ''windsurfAuthStatus'' (Object ?doc) ?w2)"
  let ?w4 = "snd (uuidv4 env ?w3)"
  let ?cfg = "codeiumConfig_json (fst (uuidv4 env ?w3)) (apiServerUrl a)"
  let ?w5 = "snd (writeToDatabase env ''codeium.windsurf'' (Object ?cfg) ?w4)"
  let ?w6 = "snd (writeToDatabase env ''codeium.windsurf-windsurf_auth'' (string_value (name a)) ?w5)"
  have eq: "write_rows env a enc w = ?w6"
    by (simp add: write_rows_def Let_def split_beta)
  from assms(1) obtain db2 where db2: "files ?w2 ?path = Some db2"
    using writeToDatabase_readable[of w ?path env sessionsKey "Buffer enc"] by auto
  have wr2: "writable ?w2 ?path" using assms(2) by simp
  from writeToDatabase_Object[OF db2 wr2, of "''windsurfAuthStatus''" ?doc]
  obtain db3 where db3: "files ?w3 ?path = Some db3"
    "select_value db3 ''windsurfAuthStatus'' = [JSON_stringify ?doc]" by blast
  then have db4: "files ?w4 ?path = Some db3" by simp
  from writeToDatabase_other_key[OF db4, of "''windsurfAuthStatus''" "''codeium.windsurf''" "Object ?cfg"]
  obtain db5 where db5: "files ?w5 ?path = Some db5"
    "select_value db5 ''windsurfAuthStatus'' = select_value db3 ''windsurfAuthStatus''" by auto
  from writeToDatabase_other_key[OF db5(1), of "''windsurfAuthStatus''" "''codeium.windsurf-windsurf_auth''"
      "string_value (name a)"]
  obtain db6 where db6: "files ?w6 ?path = Some db6"
    "select_value db6 ''windsurfAuthStatus'' = select_value db5 ''windsurfAuthStatus''" by auto
  from db3 db5 db6 eq show ?thesis by auto
qed

lemma write_rows_readable:
  "files w path \<noteq> None \<Longrightarrow> files (write_rows env a enc w) path \<noteq> None"
  by (simp add: write_rows_def Let_def split_beta writeToDatabase_readable)

lemma writeAccountData_account [simp]:
  "name (snd (fst (writeAccountData env a (p, w)))) = name a"
  "apiKey (snd (fst (writeAccountData env a (p, w)))) = apiKey a"
  by (simp_all add: writeAccountData_def Let_def split_beta split: sum.splits)

lemma writeAccountData_readable:
  assumes "files w path \<noteq> None"
  shows "files (snd (snd (writeAccountData env a (p, w)))) path \<noteq> None"
proof -
  let ?w0 = "w\<lparr>trace := trace w @ [WriteAccountDataCalled]\<rparr>"
  let ?a1 = "fst (ensure_tokens env a ?w0)" and ?w1 = "snd (ensure_tokens env a ?w0)"
  let ?w2 = "?w1\<lparr>entropy := Suc (entropy ?w1)\<rparr>"
  have r: "files ?w2 path \<noteq> None" using assms by simp
  show ?thesis
  proof (cases "fst (createEncryptedSessions env ?a1 ?w1)")
    case (Inl e)
    then show ?thesis using r by (simp add: writeAccountData_def Let_def split_beta)
  next
    case (Inr enc)
    then show ?thesis
      using write_rows_readable[OF r, of env ?a1 enc]
      by (simp add: writeAccountData_def Let_def split_beta)
  qed
qed

lemma writeAccountData_restores:
  assumes "files w (dbPath (getWindsurfPaths env)) = Some db"
    and "writable w (dbPath (getWindsurfPaths env))"
    and "fst (fst (writeAccountData env a (p, w)))"
  shows "\<exists>db' teamId. files (snd (snd (writeAccountData env a (p, w)))) (dbPath (getWindsurfPaths env)) = Some db' \<and>
           select_value db' ''windsurfAuthStatus'' =
             [JSON_stringify (authStatus_json (name a) (apiKey a) (email a) teamId)]"
proof -
  let ?w0 = "w\<lparr>trace := trace w @ [WriteAccountDataCalled]\<rparr>"
  let ?a1 = "fst (ensure_tokens env a ?w0)" and ?w1 = "snd (ensure_tokens env a ?w0)"
  let ?w2 = "?w1\<lparr>entropy := Suc (entropy ?w1)\<rparr>"
  from assms(3) obtain enc where enc: "fst (createEncryptedSessions env ?a1 ?w1) = Inr enc"
    by (auto simp: writeAccountData_def Let_def split_beta split: sum.splits)
  then have w': "snd (snd (writeAccountData env a (p, w))) = write_rows env ?a1 enc ?w2"
    by (simp add: writeAccountData_def Let_def split_beta)
  have "files ?w2 (dbPath (getWindsurfPaths env)) = Some db" "writable ?w2 (dbPath (getWindsurfPaths env))"
    using assms(1,2) by simp_all
  from write_rows_authStatus[OF this, of ?a1 enc] w' show ?thesis by simp
qed

lemma overwritten_row:
  assumes "files w path = Some db"
  shows "files (sleep (external_writer path v) w) path =
           Some (insert_or_replace db ''windsurfAuthStatus'' v)"
    and "writable (sleep (external_writer path v) w) = writable w"
    and "encryptionAvailable (sleep (external_writer path v) w) = encryptionAvailable w"
  using assms by (simp_all add: sleep_def external_writer_def)

lemma drifted_unreadable:
  assumes "files w (dbPath (getWindsurfPaths env)) = None"
  shows "drifted env p w acc"
  using assms by (simp add: drifted_def verifyLoginStatus_def readFile_def Let_def)

lemma drifted_after_overwrite:
  assumes "JSON_parse env v = Some (JObj kvs)"
    and "\<not> strict_eq (map_of kvs ''email'') (email acc)"
  shows "drifted env p (sleep (external_writer (dbPath (getWindsurfPaths env)) v) w) acc"
proof (cases "files w (dbPath (getWindsurfPaths env))")
  case None
  then have "files (sleep (external_writer (dbPath (getWindsurfPaths env)) v) w)
               (dbPath (getWindsurfPaths env)) = None"
    by (simp add: sleep_def external_writer_def)
  then show ?thesis by (rule drifted_unreadable)
next
  case (Some db)
  show ?thesis
    by (rule drifted_different_email[OF overwritten_row(1)[OF Some] _ assms])
       (simp add: select_value_insert_or_replace)
qed

lemma sleep_writer_frame [simp]:
  "writable (sleep (external_writer path v) w) = writable w"
  "encryptionAvailable (sleep (external_writer path v) w) = encryptionAvailable w"
  "(files (sleep (external_writer path v) w) path = None) = (files w path = None)"
  by (simp_all add: sleep_def external_writer_def)

lemma round_repaired:
  assumes t: "map_of (timers w) tid = Some t"
    and ok: "fst (fst (writeAccountData env (t_account t) (p, w)))"
    and v: "JSON_parse env v = Some (JObj kvs)"
    and d: "\<not> strict_eq (map_of kvs ''email'') (email (t_account t))"
    and r: "tick env tid (p, sleep (external_writer (dbPath (getWindsurfPaths env)) v) w) = (p', w')"
  shows "\<exists>t'. map_of (timers w') tid = Some t' \<and> retryCount t' = 0 \<and>
              t_maxRetries t' = t_maxRetries t \<and> email (t_account t') = email (t_account t) \<and>
              name (t_account t') = name (t_account t) \<and> apiKey (t_account t') = apiKey (t_account t) \<and>
              fst (fst (writeAccountData env (t_account t') (p', w')))"
    and "isMonitoring p' = isMonitoring p"
    and "attempts w' = Suc (attempts w)"
    and "files w (dbPath (getWindsurfPaths env)) \<noteq> None \<and> writable w (dbPath (getWindsurfPaths env)) \<Longrightarrow>
         files w' (dbPath (getWindsurfPaths env)) \<noteq> None \<and> writable w' (dbPath (getWindsurfPaths env)) \<and>
         (\<exists>db' teamId. files w' (dbPath (getWindsurfPaths env)) = Some db' \<and>
           select_value db' ''windsurfAuthStatus'' =
             [JSON_stringify (authStatus_json (name (t_account t)) (apiKey (t_account t))
                                (email (t_account t)) teamId)])"
proof -
  let ?path = "dbPath (getWindsurfPaths env)"
  let ?w0 = "sleep (external_writer ?path v) w"
  have t0: "map_of (timers ?w0) tid = Some t" using t by simp
  have dr: "drifted env p ?w0 (t_account t)" by (rule drifted_after_overwrite[OF v d])
  let ?res = "writeAccountData env (t_account t) (p, ?w0)"
  let ?a' = "snd (fst ?res)" and ?p1 = "fst (snd ?res)" and ?w1 = "snd (snd ?res)"
  from ok have can: "encryptionAvailable w" "tokenToUse (fetched env (t_account t)) \<noteq> None"
    by (simp_all add: writeAccountData_result(1))
  then have ok0: "fst (fst ?res)" by (simp add: writeAccountData_result(1))
  then have res: "?res = ((True, ?a'), ?p1, ?w1)" by (simp add: prod_eq_iff)
  have a': "?a' = fetched env (t_account t)" by (rule writeAccountData_result(2))
  let ?t' = "t\<lparr>t_account := ?a', retryCount := 0\<rparr>"
  have "tick env tid (p, ?w0) = (?p1, update_timer tid ?t' ?w1)"
    by (rule tick_rewrite_ok[OF t0 dr res])
  with r have p': "p' = ?p1" and w': "w' = update_timer tid ?t' ?w1" by simp_all
  have t1: "map_of (timers ?w1) tid = Some t" using t0 by simp
  have en': "encryptionAvailable w'" using w' can(1) by simp
  have "fst (fst (writeAccountData env ?a' (p', w')))"
    using en' can(2) by (simp add: writeAccountData_result(1) a' fetched_idem)
  then show "\<exists>t'. map_of (timers w') tid = Some t' \<and> retryCount t' = 0 \<and>
              t_maxRetries t' = t_maxRetries t \<and> email (t_account t') = email (t_account t) \<and>
              name (t_account t') = name (t_account t) \<and> apiKey (t_account t') = apiKey (t_account t) \<and>
              fst (fst (writeAccountData env (t_account t') (p', w')))"
    using w' t1 by (simp add: map_of_update_timer)
  show "isMonitoring p' = isMonitoring p" using p' by simp
  show "attempts w' = Suc (attempts w)" using w' by simp
  show "files w' ?path \<noteq> None \<and> writable w' ?path \<and>
         (\<exists>db' teamId. files w' ?path = Some db' \<and>
           select_value db' ''windsurfAuthStatus'' =
             [JSON_stringify (authStatus_json (name (t_account t)) (apiKey (t_account t))
                                (email (t_account t)) teamId)])"
    if h: "files w ?path \<noteq> None \<and> writable w ?path"
  proof -
    from h obtain db where db: "files w ?path = Some db" by auto
    have f0: "files ?w0 ?path = Some (insert_or_replace db ''windsurfAuthStatus'' v)"
      by (rule overwritten_row(1)[OF db])
    have wr0: "writable ?w0 ?path" using h by simp
    from writeAccountData_restores[OF f0 wr0 ok0] w' wr0
    show ?thesis by auto
  qed
qed

lemma rounds_repaired:
  assumes "map_of (timers w) tid = Some t"
    and "fst (fst (writeAccountData env (t_account t) (p, w)))"
    and "\<forall>v \<in> set vs. \<exists>kvs. JSON_parse env v = Some (JObj kvs) \<and>
            \<not> strict_eq (map_of kvs ''email'') (email (t_account t))"
    and "monitor_rounds env tid (map (external_writer (dbPath (getWindsurfPaths env))) vs) (p, w) = (p', w')"
  shows "(\<exists>t'. map_of (timers w') tid = Some t' \<and> (vs \<noteq> [] \<longrightarrow> retryCount t' = 0) \<and>
               t_maxRetries t' = t_maxRetries t) \<and>
         isMonitoring p' = isMonitoring p \<and>
         attempts w' = attempts w + length vs \<and>
         (vs \<noteq> [] \<and> files w (dbPath (getWindsurfPaths env)) \<noteq> None \<and>
          writable w (dbPath (getWindsurfPaths env)) \<longrightarrow>
            (\<exists>db' teamId. files w' (dbPath (getWindsurfPaths env)) = Some db' \<and>
               select_value db' ''windsurfAuthStatus'' =
                 [JSON_stringify (authStatus_json (name (t_account t)) (apiKey (t_account t))
                                    (email (t_account t)) teamId)]))"
  using assms
proof (induction vs arbitrary: p w t)
  case Nil
  then show ?case by simp
next
  case (Cons v vs)
  let ?path = "dbPath (getWindsurfPaths env)"
  obtain p1 w1 where first: "tick env tid (p, sleep (external_writer ?path v) w) = (p1, w1)"
    by (cases "tick env tid (p, sleep (external_writer ?path v) w)")
  from Cons.prems(3) obtain kvs where v: "JSON_parse env v = Some (JObj kvs)"
    "\<not> strict_eq (map_of kvs ''email'') (email (t_account t))" by auto
  note one = round_repaired[OF Cons.prems(1,2) v first]
  from one(1) obtain t1 where t1: "map_of (timers w1) tid = Some t1" "retryCount t1 = 0"
    "t_maxRetries t1 = t_maxRetries t" "email (t_account t1) = email (t_account t)"
    "name (t_account t1) = name (t_account t)" "apiKey (t_account t1) = apiKey (t_account t)"
    "fst (fst (writeAccountData env (t_account t1) (p1, w1)))"
    by blast
  have vs: "\<forall>v \<in> set vs. \<exists>kvs. JSON_parse env v = Some (JObj kvs) \<and>
            \<not> strict_eq (map_of kvs ''email'') (email (t_account t1))"
    using Cons.prems(3) t1(4) by simp
  have rest: "monitor_rounds env tid (map (external_writer ?path) vs) (p1, w1) = (p', w')"
    using Cons.prems(4) first by simp
  note ih = Cons.IH[OF t1(1) t1(7) vs rest]
  show ?case
  proof (cases "vs = []")
    case True
    with rest have "p' = p1" "w' = w1" by simp_all
    with True t1 one show ?thesis by auto
  next
    case False
    with ih t1 one show ?thesis by auto
  qed
qed

lemma rewrite_after_overwrite:
  "fst (fst (writeAccountData env a (p, sleep (external_writer path v) w))) =
   fst (fst (writeAccountData env a (p, w)))"
  by (simp add: writeAccountData_result)

lemma stopMonitoring_own_timer:
  assumes "monitorInterval p = Some tid"
  shows "stopMonitoring (p, w) = (p\<lparr>monitorInterval := None, isMonitoring := False\<rparr>, clearInterval tid w)"
  using assms by (simp add: stopMonitoring_def)

lemma tick_counter:
  assumes t: "map_of (timers w) tid = Some t"
    and r: "tick env tid (p, w) = (p', w')"
    and t': "map_of (timers w') tid = Some t'"
  shows "retryCount t' = 0 \<or>
         (retryCount t' = Suc (retryCount t) \<and> drifted env p w (t_account t) \<and>
          \<not> fst (fst (writeAccountData env (t_account t) (p, w))))"
proof (cases "drifted env p w (t_account t)")
  case False
  from tick_no_drift[OF t False] r t' t show ?thesis
    by (auto simp: map_of_update_timer)
next
  case True
  let ?res = "writeAccountData env (t_account t) (p, w)"
  let ?a' = "snd (fst ?res)" and ?p1 = "fst (snd ?res)" and ?w1 = "snd (snd ?res)"
  have t1: "map_of (timers ?w1) tid = Some t" using t by simp
  show ?thesis
  proof (cases "fst (fst ?res)")
    case ok: True
    then have "?res = ((True, ?a'), ?p1, ?w1)" by (simp add: prod_eq_iff)
    from tick_rewrite_ok[OF t True this] r t' t1 show ?thesis
      by (auto simp: map_of_update_timer)
  next
    case failed: False
    then have res: "?res = ((False, ?a'), ?p1, ?w1)" by (simp add: prod_eq_iff)
    let ?w2 = "update_timer tid (t\<lparr>t_account := ?a', retryCount := Suc (retryCount t)\<rparr>) ?w1"
    have t2: "map_of (timers ?w2) tid = Some (t\<lparr>t_account := ?a', retryCount := Suc (retryCount t)\<rparr>)"
      using t1 by (simp add: map_of_update_timer)
    have "retryCount t' = Suc (retryCount t)"
    proof (cases "Suc (retryCount t) \<ge> t_maxRetries t")
      case False
      with tick_rewrite_failed[OF t True res] r have "w' = ?w2" by simp
      with t' t2 show ?thesis by auto
    next
      case stop: True
      with tick_rewrite_failed[OF t True res] r have s: "stopMonitoring (?p1, ?w2) = (p', w')" by simp
      show ?thesis
      proof (cases "monitorInterval ?p1")
        case None
        with s have "w' = ?w2" by (simp add: stopMonitoring_def)
        with t' t2 show ?thesis by auto
      next
        case (Some tid')
        with s have "w' = clearInterval tid' ?w2" by (simp add: stopMonitoring_def)
        with t' t2 show ?thesis by (auto simp: map_of_clearInterval split: if_splits)
      qed
    qed
    with True failed show ?thesis by simp
  qed
qed

lemma rounds_after_halt:
  assumes "map_of (timers w) tid = None"
  shows "fst (monitor_rounds env tid xs (p, w)) = p \<and>
         attempts (snd (monitor_rounds env tid xs (p, w))) = attempts w \<and>
         map_of (timers (snd (monitor_rounds env tid xs (p, w)))) tid = None"
  using assms
proof (induction xs arbitrary: w)
  case Nil
  then show ?case by simp
next
  case (Cons x xs)
  have "map_of (timers (sleep x w)) tid = None" using Cons.prems by simp
  from tick_inactive[OF this] Cons.IH[OF this] show ?case by simp
qed

lemma round_failed:
  assumes t: "map_of (timers w) tid = Some t"
    and m: "monitorInterval p = Some tid"
    and e: "\<not> fst (fst (writeAccountData env (t_account t) (p, w)))"
    and v: "JSON_parse env v = Some (JObj kvs)"
    and d: "\<not> strict_eq (map_of kvs ''email'') (email (t_account t))"
    and r: "tick env tid (p, sleep (external_writer (dbPath (getWindsurfPaths env)) v) w) = (p', w')"
  shows "attempts w' = Suc (attempts w)"
    and "Suc (retryCount t) \<ge> t_maxRetries t \<Longrightarrow>
           \<not> isMonitoring p' \<and> monitorInterval p' = None \<and> map_of (timers w') tid = None"
    and "Suc (retryCount t) < t_maxRetries t \<Longrightarrow>
           isMonitoring p' = isMonitoring p \<and> monitorInterval p' = Some tid \<and>
           (\<exists>t'. map_of (timers w') tid = Some t' \<and> retryCount t' = Suc (retryCount t) \<and>
                 t_maxRetries t' = t_maxRetries t \<and> email (t_account t') = email (t_account t) \<and>
                 \<not> fst (fst (writeAccountData env (t_account t') (p', w'))))"
proof -
  let ?path = "dbPath (getWindsurfPaths env)"
  let ?w0 = "sleep (external_writer ?path v) w"
  have t0: "map_of (timers ?w0) tid = Some t" using t by simp
  have dr: "drifted env p ?w0 (t_account t)" by (rule drifted_after_overwrite[OF v d])
  let ?res = "writeAccountData env (t_account t) (p, ?w0)"
  let ?a' = "snd (fst ?res)" and ?p1 = "fst (snd ?res)" and ?w1 = "snd (snd ?res)"
  have bad: "\<not> fst (fst ?res)" using e by (simp add: rewrite_after_overwrite)
  then have res: "?res = ((False, ?a'), ?p1, ?w1)" by (simp add: prod_eq_iff)
  let ?t' = "t\<lparr>t_account := ?a', retryCount := Suc (retryCount t)\<rparr>"
  let ?w2 = "update_timer tid ?t' ?w1"
  note step = tick_rewrite_failed[OF t0 dr res]
  have m1: "monitorInterval ?p1 = Some tid" using m by simp
  have t1: "map_of (timers ?w1) tid = Some t" using t0 by simp
  have w'_cases: "w' = ?w2 \<or> w' = clearInterval tid ?w2"
    using step r stopMonitoring_own_timer[OF m1, of ?w2] by (auto split: if_splits)
  then show "attempts w' = Suc (attempts w)" by auto
  show "\<not> isMonitoring p' \<and> monitorInterval p' = None \<and> map_of (timers w') tid = None"
    if "Suc (retryCount t) \<ge> t_maxRetries t"
    using that step r stopMonitoring_own_timer[OF m1, of ?w2] by (auto simp: map_of_clearInterval)
  show "isMonitoring p' = isMonitoring p \<and> monitorInterval p' = Some tid \<and>
           (\<exists>t'. map_of (timers w') tid = Some t' \<and> retryCount t' = Suc (retryCount t) \<and>
                 t_maxRetries t' = t_maxRetries t \<and> email (t_account t') = email (t_account t) \<and>
                 \<not> fst (fst (writeAccountData env (t_account t') (p', w'))))"
    if lt: "Suc (retryCount t) < t_maxRetries t"
  proof -
    from lt step r have p': "p' = ?p1" and w': "w' = ?w2" by simp_all
    have en: "encryptionAvailable w' = encryptionAvailable ?w0" using w' by simp
    have "\<not> fst (fst (writeAccountData env ?a' (p', w')))"
      using rewrite_persists[OF en, of env "t_account t" p p'] bad by simp
    then show ?thesis using p' w' t1 m by (simp add: map_of_update_timer)
  qed
qed

lemma rounds_exhausted:
  assumes "map_of (timers w) tid = Some t"
    and "monitorInterval p = Some tid"
    and "\<not> fst (fst (writeAccountData env (t_account t) (p, w)))"
    and "\<forall>v \<in> set vs. \<exists>kvs. JSON_parse env v = Some (JObj kvs) \<and>
            \<not> strict_eq (map_of kvs ''email'') (email (t_account t))"
    and "vs \<noteq> []"
    and "retryCount t + length vs = t_maxRetries t"
    and "monitor_rounds env tid (map (external_writer (dbPath (getWindsurfPaths env))) vs) (p, w) = (p', w')"
  shows "\<not> isMonitoring p' \<and> monitorInterval p' = None \<and> map_of (timers w') tid = None \<and>
         attempts w' = attempts w + length vs"
  using assms
proof (induction vs arbitrary: p w t)
  case Nil
  then show ?case by simp
next
  case (Cons v vs)
  let ?path = "dbPath (getWindsurfPaths env)"
  obtain p1 w1 where first: "tick env tid (p, sleep (external_writer ?path v) w) = (p1, w1)"
    by (cases "tick env tid (p, sleep (external_writer ?path v) w)")
  from Cons.prems(4) obtain kvs where v: "JSON_parse env v = Some (JObj kvs)"
    "\<not> strict_eq (map_of kvs ''email'') (email (t_account t))" by auto
  note one = round_failed[OF Cons.prems(1,2,3) v first]
  have rest: "monitor_rounds env tid (map (external_writer ?path) vs) (p1, w1) = (p', w')"
    using Cons.prems(7) first by simp
  show ?case
  proof (cases "vs = []")
    case True
    with rest have "p' = p1" "w' = w1" by simp_all
    moreover have "Suc (retryCount t) \<ge> t_maxRetries t" using Cons.prems(6) True by simp
    ultimately show ?thesis using one(1) one(2) True by simp
  next
    case False
    then have lt: "Suc (retryCount t) < t_maxRetries t" using Cons.prems(6) by (cases vs) simp_all
    from one(3)[OF lt] obtain t1 where t1: "map_of (timers w1) tid = Some t1"
      "retryCount t1 = Suc (retryCount t)" "t_maxRetries t1 = t_maxRetries t"
      "email (t_account t1) = email (t_account t)"
      "\<not> fst (fst (writeAccountData env (t_account t1) (p1, w1)))"
      and m1: "monitorInterval p1 = Some tid"
      by blast
    have vs: "\<forall>v \<in> set vs. \<exists>kvs. JSON_parse env v = Some (JObj kvs) \<and>
            \<not> strict_eq (map_of kvs ''email'') (email (t_account t1))"
      using Cons.prems(4) t1(4) by simp
    have len: "retryCount t1 + length vs = t_maxRetries t1" using Cons.prems(6) t1(2,3) by simp
    from Cons.IH[OF t1(1) m1 t1(5) vs False len rest] one(1)
    show ?thesis by simp
  qed
qed

lemma stopMonitoring_attempts [simp]:
  "attempts (snd (stopMonitoring (p, w))) = attempts w"
  by (simp add: stopMonitoring_def split: option.splits)

lemma round_attempts:
  assumes t: "map_of (timers w) tid = Some t"
    and v: "JSON_parse env v = Some (JObj kvs)"
    and d: "\<not> strict_eq (map_of kvs ''email'') (email (t_account t))"
  shows "attempts (snd (tick env tid (p, sleep (external_writer (dbPath (getWindsurfPaths env)) v) w)))
           = Suc (attempts w)"
proof -
  let ?path = "dbPath (getWindsurfPaths env)"
  let ?w0 = "sleep (external_writer ?path v) w"
  have t0: "map_of (timers ?w0) tid = Some t" using t by simp
  have dr: "drifted env p ?w0 (t_account t)" by (rule drifted_after_overwrite[OF v d])
  let ?res = "writeAccountData env (t_account t) (p, ?w0)"
  let ?a' = "snd (fst ?res)" and ?p1 = "fst (snd ?res)" and ?w1 = "snd (snd ?res)"
  show ?thesis
  proof (cases "fst (fst ?res)")
    case True
    then have "?res = ((True, ?a'), ?p1, ?w1)" by (simp add: prod_eq_iff)
    from tick_rewrite_ok[OF t0 dr this] show ?thesis by simp
  next
    case False
    then have "?res = ((False, ?a'), ?p1, ?w1)" by (simp add: prod_eq_iff)
    from tick_rewrite_failed[OF t0 dr this] show ?thesis by simp
  qed
qed

text \<open>
  C2, as the code has it. A writer puts a different email into the Auth Status row before
  every tick. (1) While the re-write returns true, the counter is back at 0 after every
  tick and the monitor keeps running, however many overwrites there are; each tick ran
  the write sequence once, and on a store that can be read and written the row holds
  the expected name, key and email after the tick. (2) Every such tick detects the drift
  and runs the write sequence once, whatever the re-write returns; when it returns true
  the counter is 0 and the timer stays set. (3) After any tick, the counter of a timer
  that is still set is either 0 or one more than before; it is one more only when the
  tick's re-write returned false. (4) While the re-write returns false, the tick at
  which the counter reaches \<^verbatim>\<open>maxRetries\<close> clears the timer and sets \<^verbatim>\<open>isMonitoring\<close> to
  false; no later period enters the write sequence again. Whether the re-write returns
  true depends on the cipher and on the account's tokens only, which neither the writer
  nor a tick changes: it is stated for the state the run starts from.
\<close>

theorem monitor_repairs_and_retry_budget:
  "(map_of (timers w) tid = Some t \<and>
    fst (fst (writeAccountData env (t_account t) (p, w))) \<and> vs \<noteq> [] \<and>
    (\<forall>v \<in> set vs. \<exists>kvs. JSON_parse env v = Some (JObj kvs) \<and>
        \<not> strict_eq (map_of kvs ''email'') (email (t_account t))) \<and>
    monitor_rounds env tid (map (external_writer (dbPath (getWindsurfPaths env))) vs) (p, w) = (p', w')
    \<longrightarrow>
      isMonitoring p' = isMonitoring p \<and> attempts w' = attempts w + length vs \<and>
      (\<exists>t'. map_of (timers w') tid = Some t' \<and> retryCount t' = 0) \<and>
      (files w (dbPath (getWindsurfPaths env)) \<noteq> None \<and> writable w (dbPath (getWindsurfPaths env)) \<longrightarrow>
        (\<exists>db' teamId. files w' (dbPath (getWindsurfPaths env)) = Some db' \<and>
            select_value db' ''windsurfAuthStatus'' =
              [JSON_stringify (authStatus_json (name (t_account t)) (apiKey (t_account t))
                                 (email (t_account t)) teamId)])))
   \<and>
   (map_of (timers w) tid = Some t \<and> JSON_parse env v = Some (JObj kvs) \<and>
    \<not> strict_eq (map_of kvs ''email'') (email (t_account t)) \<and>
    tick env tid (p, sleep (external_writer (dbPath (getWindsurfPaths env)) v) w) = (pa, wa)
    \<longrightarrow>
      attempts wa = Suc (attempts w) \<and>
      (fst (fst (writeAccountData env (t_account t)
                   (p, sleep (external_writer (dbPath (getWindsurfPaths env)) v) w))) \<longrightarrow>
         isMonitoring pa = isMonitoring p \<and>
         (\<exists>ta. map_of (timers wa) tid = Some ta \<and> retryCount ta = 0)))
   \<and>
   (map_of (timers w) tid = Some t \<and> tick env tid (p, w) = (pb, wb) \<and>
    map_of (timers wb) tid = Some tb \<and> retryCount tb \<noteq> 0
    \<longrightarrow>
      retryCount tb = Suc (retryCount t) \<and>
      \<not> fst (fst (writeAccountData env (t_account t) (p, w))))
   \<and>
   (map_of (timers w) tid = Some t \<and> monitorInterval p = Some tid \<and>
    \<not> fst (fst (writeAccountData env (t_account t) (p, w))) \<and> vs \<noteq> [] \<and>
    (\<forall>v \<in> set vs. \<exists>kvs. JSON_parse env v = Some (JObj kvs) \<and>
        \<not> strict_eq (map_of kvs ''email'') (email (t_account t))) \<and>
    retryCount t + length vs = t_maxRetries t \<and>
    monitor_rounds env tid (map (external_writer (dbPath (getWindsurfPaths env))) vs) (p, w) = (pc, wc)
    \<longrightarrow>
      \<not> isMonitoring pc \<and> map_of (timers wc) tid = None \<and>
      attempts wc = attempts w + length vs \<and>
      (\<forall>more. fst (monitor_rounds env tid more (pc, wc)) = pc \<and>
              attempts (snd (monitor_rounds env tid more (pc, wc))) = attempts wc))"
proof (intro conjI impI)
  assume a: "map_of (timers w) tid = Some t \<and>
    fst (fst (writeAccountData env (t_account t) (p, w))) \<and> vs \<noteq> [] \<and>
    (\<forall>v \<in> set vs. \<exists>kvs. JSON_parse env v = Some (JObj kvs) \<and>
        \<not> strict_eq (map_of kvs ''email'') (email (t_account t))) \<and>
    monitor_rounds env tid (map (external_writer (dbPath (getWindsurfPaths env))) vs) (p, w) = (p', w')"
  then have ne: "vs \<noteq> []" by simp
  from a rounds_repaired[of w tid t env p vs p' w']
  have c: "(\<exists>t'. map_of (timers w') tid = Some t' \<and> (vs \<noteq> [] \<longrightarrow> retryCount t' = 0) \<and>
               t_maxRetries t' = t_maxRetries t) \<and>
         isMonitoring p' = isMonitoring p \<and>
         attempts w' = attempts w + length vs \<and>
         (vs \<noteq> [] \<and> files w (dbPath (getWindsurfPaths env)) \<noteq> None \<and>
          writable w (dbPath (getWindsurfPaths env)) \<longrightarrow>
            (\<exists>db' teamId. files w' (dbPath (getWindsurfPaths env)) = Some db' \<and>
               select_value db' ''windsurfAuthStatus'' =
                 [JSON_stringify (authStatus_json (name (t_account t)) (apiKey (t_account t))
                                    (email (t_account t)) teamId)]))"
    by blast
  from c show "isMonitoring p' = isMonitoring p" by blast
  from c show "attempts w' = attempts w + length vs" by blast
  from c ne show "\<exists>t'. map_of (timers w') tid = Some t' \<and> retryCount t' = 0" by blast
  assume "files w (dbPath (getWindsurfPaths env)) \<noteq> None \<and> writable w (dbPath (getWindsurfPaths env))"
  with c ne show "\<exists>db' teamId. files w' (dbPath (getWindsurfPaths env)) = Some db' \<and>
          select_value db' ''windsurfAuthStatus'' =
            [JSON_stringify (authStatus_json (name (t_account t)) (apiKey (t_account t))
                               (email (t_account t)) teamId)]" by blast
next
  assume a: "map_of (timers w) tid = Some t \<and> JSON_parse env v = Some (JObj kvs) \<and>
    \<not> strict_eq (map_of kvs ''email'') (email (t_account t)) \<and>
    tick env tid (p, sleep (external_writer (dbPath (getWindsurfPaths env)) v) w) = (pa, wa)"
  with round_attempts[of w tid t env v kvs p]
  show "attempts wa = Suc (attempts w)" by simp
  assume "fst (fst (writeAccountData env (t_account t)
                   (p, sleep (external_writer (dbPath (getWindsurfPaths env)) v) w)))"
  then have ok: "fst (fst (writeAccountData env (t_account t) (p, w)))"
    by (simp add: rewrite_after_overwrite)
  from a have t: "map_of (timers w) tid = Some t" and v: "JSON_parse env v = Some (JObj kvs)"
    and d: "\<not> strict_eq (map_of kvs ''email'') (email (t_account t))"
    and r: "tick env tid (p, sleep (external_writer (dbPath (getWindsurfPaths env)) v) w) = (pa, wa)"
    by simp_all
  from round_repaired(2)[OF t ok v d r] show "isMonitoring pa = isMonitoring p" .
  from round_repaired(1)[OF t ok v d r]
  show "\<exists>ta. map_of (timers wa) tid = Some ta \<and> retryCount ta = 0" by blast
next
  assume b: "map_of (timers w) tid = Some t \<and> tick env tid (p, w) = (pb, wb) \<and>
    map_of (timers wb) tid = Some tb \<and> retryCount tb \<noteq> 0"
  with tick_counter[of w tid t env p pb wb tb]
  show "retryCount tb = Suc (retryCount t)"
    and "\<not> fst (fst (writeAccountData env (t_account t) (p, w)))"
    by auto
next
  assume c: "map_of (timers w) tid = Some t \<and> monitorInterval p = Some tid \<and>
    \<not> fst (fst (writeAccountData env (t_account t) (p, w))) \<and> vs \<noteq> [] \<and>
    (\<forall>v \<in> set vs. \<exists>kvs. JSON_parse env v = Some (JObj kvs) \<and>
        \<not> strict_eq (map_of kvs ''email'') (email (t_account t))) \<and>
    retryCount t + length vs = t_maxRetries t \<and>
    monitor_rounds env tid (map (external_writer (dbPath (getWindsurfPaths env))) vs) (p, w) = (pc, wc)"
  with rounds_exhausted[of w tid t p env vs pc wc]
  have e: "\<not> isMonitoring pc \<and> monitorInterval pc = None \<and> map_of (timers wc) tid = None \<and>
         attempts wc = attempts w + length vs"
    by blast
  from e show "\<not> isMonitoring pc" by blast
  from e show "map_of (timers wc) tid = None" by blast
  from e show "attempts wc = attempts w + length vs" by blast
  from e rounds_after_halt[of wc tid env _ pc]
  show "\<forall>more. fst (monitor_rounds env tid more (pc, wc)) = pc \<and>
              attempts (snd (monitor_rounds env tid more (pc, wc))) = attempts wc"
    by blast
qed

lemma intruder_rows:
  assumes "email a = Some ''b@x.com''"
  shows "\<forall>v \<in> set three_overwrites. \<exists>kvs. JSON_parse demo_env v = Some (JObj kvs) \<and>
       \<not> strict_eq (map_of kvs ''email'') (email a)"
    and "\<forall>v \<in> set two_overwrites. \<exists>kvs. JSON_parse demo_env v = Some (JObj kvs) \<and>
       \<not> strict_eq (map_of kvs ''email'') (email a)"
    and "JSON_parse demo_env intruder_text = Some (JObj [(''email'', JStr ''a@x.com'')]) \<and>
        \<not> strict_eq (map_of [(''email'', JStr ''a@x.com'')] ''email'') (email a)"
proof -
  show one: "JSON_parse demo_env intruder_text = Some (JObj [(''email'', JStr ''a@x.com'')]) \<and>
        \<not> strict_eq (map_of [(''email'', JStr ''a@x.com'')] ''email'') (email a)"
    using assms
    by (simp add: demo_env_def demo_parse_def demo_docs_def intruder_text_def intruder_doc_def)
  then have "\<exists>kvs. JSON_parse demo_env intruder_text = Some (JObj kvs) \<and>
       \<not> strict_eq (map_of kvs ''email'') (email a)"
    by blast
  then show
    "\<forall>v \<in> set three_overwrites. \<exists>kvs. JSON_parse demo_env v = Some (JObj kvs) \<and>
       \<not> strict_eq (map_of kvs ''email'') (email a)"
    "\<forall>v \<in> set two_overwrites. \<exists>kvs. JSON_parse demo_env v = Some (JObj kvs) \<and>
       \<not> strict_eq (map_of kvs ''email'') (email a)"
    by (simp_all add: three_overwrites_def two_overwrites_def)
qed

theorem monitor_repairs_and_retry_budget_witness:
  "map_of (timers (snd monitoring)) 1 = Some demo_timer \<and>
   fst (fst (writeAccountData demo_env demo_account monitoring)) \<and>
   isMonitoring (fst (monitor_rounds demo_env 1
      (map (external_writer (dbPath (getWindsurfPaths demo_env))) three_overwrites) monitoring)) \<and>
   attempts (snd (monitor_rounds demo_env 1
      (map (external_writer (dbPath (getWindsurfPaths demo_env))) three_overwrites) monitoring))
     = attempts (snd monitoring) + 3 \<and>
   map_of (timers (snd fed)) 1 = Some firebase_timer \<and>
   apiKey firebase_account = None \<and>
   fst (fst (writeAccountData demo_env firebase_account fed)) \<and>
   isMonitoring (fst (monitor_rounds demo_env 1
      (map (external_writer (dbPath (getWindsurfPaths demo_env))) three_overwrites) fed)) \<and>
   (\<exists>db' teamId. files (snd (monitor_rounds demo_env 1
      (map (external_writer (dbPath (getWindsurfPaths demo_env))) three_overwrites) fed))
        (dbPath (getWindsurfPaths demo_env)) = Some db' \<and>
      select_value db' ''windsurfAuthStatus'' =
        [JSON_stringify (authStatus_json (Some ''Bob'') None (Some ''b@x.com'') teamId)]) \<and>
   attempts (snd (tick demo_env 1 (fst fed,
      sleep (external_writer (dbPath (getWindsurfPaths demo_env)) intruder_text) (snd fed))))
     = Suc (attempts (snd fed)) \<and>
   (\<exists>ta. map_of (timers (snd (tick demo_env 1 (fst fed,
      sleep (external_writer (dbPath (getWindsurfPaths demo_env)) intruder_text) (snd fed))))) 1
        = Some ta \<and> retryCount ta = 0) \<and>
   map_of (timers (snd failing)) 1 = Some demo_timer \<and>
   \<not> encryptionAvailable (snd failing) \<and>
   \<not> isMonitoring (fst (monitor_rounds demo_env 1
      (map (external_writer (dbPath (getWindsurfPaths demo_env))) two_overwrites) failing)) \<and>
   attempts (snd (monitor_rounds demo_env 1
      (map (external_writer (dbPath (getWindsurfPaths demo_env))) two_overwrites) failing))
     = attempts (snd failing) + 2 \<and>
   map_of (timers (snd starving)) 1 = Some tokenless_timer \<and>
   encryptionAvailable (snd starving) \<and>
   files (snd starving) (dbPath (getWindsurfPaths demo_env)) \<noteq> None \<and>
   writable (snd starving) (dbPath (getWindsurfPaths demo_env)) \<and>
   \<not> isMonitoring (fst (monitor_rounds demo_env 1
      (map (external_writer (dbPath (getWindsurfPaths demo_env))) two_overwrites) starving)) \<and>
   attempts (snd (monitor_rounds demo_env 1
      (map (external_writer (dbPath (getWindsurfPaths demo_env))) two_overwrites) starving))
     = attempts (snd starving) + 2 \<and>
   map_of (timers (snd (tick demo_env 1 (fst failing,
      sleep (external_writer (dbPath (getWindsurfPaths demo_env)) intruder_text) (snd failing))))) 1
     = Some (demo_timer\<lparr>retryCount := 1\<rparr>) \<and>
   \<not> fst (fst (writeAccountData demo_env (t_account demo_timer) (fst failing,
      sleep (external_writer (dbPath (getWindsurfPaths demo_env)) intruder_text) (snd failing))))"
proof -
  let ?P = "dbPath (getWindsurfPaths demo_env)"
  let ?w = "sleep (external_writer ?P intruder_text) (snd failing)"
  let ?X = "tick demo_env 1 (fst failing, ?w)"
  let ?R = "monitor_rounds demo_env 1 (map (external_writer ?P) three_overwrites) monitoring"
  let ?G = "monitor_rounds demo_env 1 (map (external_writer ?P) three_overwrites) fed"
  let ?F = "monitor_rounds demo_env 1 (map (external_writer ?P) two_overwrites) failing"
  let ?S = "monitor_rounds demo_env 1 (map (external_writer ?P) two_overwrites) starving"
  let ?wg = "sleep (external_writer ?P intruder_text) (snd fed)"
  let ?Y = "tick demo_env 1 (fst fed, ?wg)"
  have mail: "email (t_account demo_timer) = Some ''b@x.com''"
    "email (t_account firebase_timer) = Some ''b@x.com''"
    "email (t_account tokenless_timer) = Some ''b@x.com''"
    by (simp_all add: demo_timer_def demo_account_def firebase_timer_def firebase_account_def
        tokenless_timer_def tokenless_account_def)
  have three: "three_overwrites \<noteq> []" by (simp add: three_overwrites_def)
  have two: "two_overwrites \<noteq> []" by (simp add: two_overwrites_def)

  have m1: "map_of (timers (snd monitoring)) 1 = Some demo_timer" by code_simp
  have m2: "fst (fst (writeAccountData demo_env (t_account demo_timer) (fst monitoring, snd monitoring)))"
    by code_simp
  have m7: "monitor_rounds demo_env 1 (map (external_writer ?P) three_overwrites)
              (fst monitoring, snd monitoring) = (fst ?R, snd ?R)" by simp
  have mon: "isMonitoring (fst monitoring)" by code_simp
  note A = monitor_repairs_and_retry_budget[where env = demo_env and w = "snd monitoring"
      and p = "fst monitoring" and tid = 1 and t = demo_timer
      and vs = three_overwrites and p' = "fst ?R" and w' = "snd ?R", THEN conjunct1, THEN mp,
      OF conjI[OF m1 conjI[OF m2 conjI[OF three conjI[OF intruder_rows(1)[OF mail(1)] m7]]]]]
  from A mon have a1: "isMonitoring (fst ?R)" by simp
  from A have a2: "attempts (snd ?R) = attempts (snd monitoring) + 3"
    by (simp add: three_overwrites_def)
  from m2 have a3: "fst (fst (writeAccountData demo_env demo_account monitoring))"
    by (simp add: demo_timer_def)

  have g1: "map_of (timers (snd fed)) 1 = Some firebase_timer" by code_simp
  have g2: "fst (fst (writeAccountData demo_env (t_account firebase_timer) (fst fed, snd fed)))"
    by code_simp
  have g3: "files (snd fed) ?P \<noteq> None \<and> writable (snd fed) ?P" by code_simp
  have g7: "monitor_rounds demo_env 1 (map (external_writer ?P) three_overwrites)
              (fst fed, snd fed) = (fst ?G, snd ?G)" by simp
  have gmon: "isMonitoring (fst fed)" by code_simp
  have gacc: "name (t_account firebase_timer) = Some ''Bob''" "apiKey (t_account firebase_timer) = None"
    "apiKey firebase_account = None"
    by (simp_all add: firebase_timer_def firebase_account_def)
  note G = monitor_repairs_and_retry_budget[where env = demo_env and w = "snd fed"
      and p = "fst fed" and tid = 1 and t = firebase_timer
      and vs = three_overwrites and p' = "fst ?G" and w' = "snd ?G", THEN conjunct1, THEN mp,
      OF conjI[OF g1 conjI[OF g2 conjI[OF three conjI[OF intruder_rows(1)[OF mail(2)] g7]]]]]
  from G gmon have g8: "isMonitoring (fst ?G)" by simp
  from G g3 have g9: "\<exists>db' teamId. files (snd ?G) ?P = Some db' \<and>
      select_value db' ''windsurfAuthStatus'' =
        [JSON_stringify (authStatus_json (Some ''Bob'') None (Some ''b@x.com'') teamId)]"
    by (simp add: gacc mail)
  from g2 have g10: "fst (fst (writeAccountData demo_env firebase_account fed))"
    by (simp add: firebase_timer_def)

  have y1: "tick demo_env 1 (fst fed, ?wg) = (fst ?Y, snd ?Y)" by simp
  have y2: "fst (fst (writeAccountData demo_env (t_account firebase_timer) (fst fed, ?wg)))"
    by code_simp
  note Y = monitor_repairs_and_retry_budget[where env = demo_env and w = "snd fed"
      and p = "fst fed" and tid = 1 and t = firebase_timer and v = intruder_text
      and kvs = "[(''email'', JStr ''a@x.com'')]" and pa = "fst ?Y" and wa = "snd ?Y",
      THEN conjunct2, THEN conjunct1, THEN mp,
      OF conjI[OF g1 conjI[OF conjunct1[OF intruder_rows(3)[OF mail(2)]]
         conjI[OF conjunct2[OF intruder_rows(3)[OF mail(2)]] y1]]]]
  from Y have y3: "attempts (snd ?Y) = Suc (attempts (snd fed))" by simp
  from Y y2 have y4: "\<exists>ta. map_of (timers (snd ?Y)) 1 = Some ta \<and> retryCount ta = 0" by simp

  have f1: "map_of (timers (snd failing)) 1 = Some demo_timer" by code_simp
  have f2: "monitorInterval (fst failing) = Some 1" by code_simp
  have f3: "\<not> fst (fst (writeAccountData demo_env (t_account demo_timer) (fst failing, snd failing)))"
    by code_simp
  have f4: "\<not> encryptionAvailable (snd failing)" by code_simp
  have f6: "retryCount demo_timer + length two_overwrites = t_maxRetries demo_timer"
    by (simp add: two_overwrites_def demo_timer_def)
  have f7: "monitor_rounds demo_env 1 (map (external_writer ?P) two_overwrites)
              (fst failing, snd failing) = (fst ?F, snd ?F)" by simp
  note C = monitor_repairs_and_retry_budget[where env = demo_env and w = "snd failing"
      and p = "fst failing" and tid = 1 and t = demo_timer
      and vs = two_overwrites and pc = "fst ?F" and wc = "snd ?F",
      THEN conjunct2, THEN conjunct2, THEN conjunct2, THEN mp,
      OF conjI[OF f1 conjI[OF f2 conjI[OF f3 conjI[OF two
         conjI[OF intruder_rows(2)[OF mail(1)] conjI[OF f6 f7]]]]]]]
  from C have c1: "\<not> isMonitoring (fst ?F)" by simp
  from C have c2: "attempts (snd ?F) = attempts (snd failing) + 2"
    by (simp add: two_overwrites_def)

  have s1: "map_of (timers (snd starving)) 1 = Some tokenless_timer" by code_simp
  have s2: "monitorInterval (fst starving) = Some 1" by code_simp
  have s3: "\<not> fst (fst (writeAccountData demo_env (t_account tokenless_timer) (fst starving, snd starving)))"
    by code_simp
  have s4: "encryptionAvailable (snd starving)" "files (snd starving) ?P \<noteq> None"
    "writable (snd starving) ?P" by code_simp+
  have s6: "retryCount tokenless_timer + length two_overwrites = t_maxRetries tokenless_timer"
    by (simp add: two_overwrites_def tokenless_timer_def)
  have s7: "monitor_rounds demo_env 1 (map (external_writer ?P) two_overwrites)
              (fst starving, snd starving) = (fst ?S, snd ?S)" by simp
  note S = monitor_repairs_and_retry_budget[where env = demo_env and w = "snd starving"
      and p = "fst starving" and tid = 1 and t = tokenless_timer
      and vs = two_overwrites and pc = "fst ?S" and wc = "snd ?S",
      THEN conjunct2, THEN conjunct2, THEN conjunct2, THEN mp,
      OF conjI[OF s1 conjI[OF s2 conjI[OF s3 conjI[OF two
         conjI[OF intruder_rows(2)[OF mail(3)] conjI[OF s6 s7]]]]]]]
  from S have s8: "\<not> isMonitoring (fst ?S)" by simp
  from S have s9: "attempts (snd ?S) = attempts (snd starving) + 2"
    by (simp add: two_overwrites_def)

  have b1: "map_of (timers ?w) 1 = Some demo_timer" by code_simp
  have b2: "tick demo_env 1 (fst failing, ?w) = (fst ?X, snd ?X)" by simp
  have b3: "map_of (timers (snd ?X)) 1 = Some (demo_timer\<lparr>retryCount := 1\<rparr>)" by code_simp
  have b4: "retryCount (demo_timer\<lparr>retryCount := 1\<rparr>) \<noteq> 0" by simp
  note B = monitor_repairs_and_retry_budget[where env = demo_env and w = ?w
      and p = "fst failing" and tid = 1 and t = demo_timer and pb = "fst ?X" and wb = "snd ?X"
      and tb = "demo_timer\<lparr>retryCount := 1\<rparr>",
      THEN conjunct2, THEN conjunct2, THEN conjunct1, THEN mp,
      OF conjI[OF b1 conjI[OF b2 conjI[OF b3 b4]]]]
  from B have b5: "\<not> fst (fst (writeAccountData demo_env (t_account demo_timer) (fst failing, ?w)))"
    by simp
  from m1 a3 a1 a2 g1 gacc(3) g10 g8 g9 y3 y4 f1 f4 c1 c2 s1 s4 s8 s9 b3 b5 show ?thesis
    by (intro conjI)
qed

text \<open>
  With \<^verbatim>\<open>maxRetries = 2\<close>, after three ticks that each found the row overwritten with a
  different email the monitor has not halted: it is still monitoring, its timer is set
  and the counter is 0.
\<close>

theorem monitor_keeps_running_counterexample:
  "isMonitoring (fst (monitor_rounds demo_env 1
      (map (external_writer demo_db) [intruder_text, intruder_text, intruder_text]) monitoring)) \<and>
   map (\<lambda>x. (fst x, t_maxRetries (snd x), retryCount (snd x))) (timers (snd (monitor_rounds demo_env 1
      (map (external_writer demo_db) [intruder_text, intruder_text, intruder_text]) monitoring)))
     = [(1, 2, 0)] \<and>
   attempts (snd (monitor_rounds demo_env 1
      (map (external_writer demo_db) [intruder_text, intruder_text, intruder_text]) monitoring))
     = attempts (snd monitoring) + 3"
  by code_simp

subsection \<open>Starting a monitor that is running\<close>




text \<open>
  The test is made on the persister's own field: a second persister, as every account
  switch creates one, starts its own timer on a machine where one is running.
\<close>

lemma second_persister_second_timer:
  "\<not> isMonitoring demo_persister \<and>
   map fst (timers (snd monitoring)) = [1] \<and>
   map fst (timers (snd (snd (startMonitoring demo_env demo_account demo_options
      (demo_persister, snd monitoring))))) = [1, 2]"
  by code_simp

end
